theory Spec2Isabelle
  imports Complex_Main "HOL-Library.Multiset" "HOL-Library.Sublist"
begin

text \<open>
  A model of the synchroniser of the node (the 450-line file of the sources that defines
  \<^verbatim>\<open>Synchroniser\<close>, \<^verbatim>\<open>NodesMerkle\<close>, \<^verbatim>\<open>MultimeterWatcher\<close> and \<^verbatim>\<open>LoggerWatcher\<close>).
  The closure variables of \<^verbatim>\<open>Synchroniser\<close> and everything \<^verbatim>\<open>sync\<close> does to the outside
  (events pushed, calls to the ledger, to the remote node and to the peer service) are the
  fields of one state record that every function takes and returns. What the outside
  answers is read from an environment record. A rejected promise or a \<^verbatim>\<open>throw\<close> is the
  \<open>Inl\<close> branch of a sum.
\<close>

section \<open>JavaScript values\<close>

text \<open>
  The numbers that \<^verbatim>\<open>Math.floor(a / b * 100)\<close> yields for integers \<open>a\<close> and \<open>b\<close>: an integer,
  an infinity (\<open>b = 0\<close>, \<open>a \<noteq> 0\<close>) or \<^verbatim>\<open>NaN\<close> (\<open>0 / 0\<close>). The quotient is taken exactly; the
  source rounds it to a double first, which can lower the floor by one (\<^verbatim>\<open>29 / 100 * 100\<close>)
  and changes neither the order of two percentages of one denominator nor a bound.
\<close>

datatype jsnum = Fin int | PInf | NInf | NaN

fun js_lt :: "jsnum \<Rightarrow> jsnum \<Rightarrow> bool" where
  "js_lt (Fin a) (Fin b) = (a < b)"
| "js_lt (Fin a) PInf = True"
| "js_lt NInf (Fin b) = True"
| "js_lt NInf PInf = True"
| "js_lt _ _ = False"

definition js_neq :: "jsnum \<Rightarrow> jsnum \<Rightarrow> bool" where
  "js_neq a b = (a = NaN \<or> b = NaN \<or> a \<noteq> b)"

definition floor_pct :: "int \<Rightarrow> int \<Rightarrow> jsnum" where
  "floor_pct a b =
     (if b = 0 then (if a = 0 then NaN else if 0 < a then PInf else NInf)
      else Fin \<lfloor>(of_int a / of_int b :: rat) * 100\<rfloor>)"

text \<open>\<^verbatim>\<open>Math.round\<close> rounds a half upwards.\<close>

definition js_round :: "rat \<Rightarrow> int" where
  "js_round x = \<lfloor>x + 1 / 2\<rfloor>"

text \<open>
  A thrown value or rejection reason: a string primitive (\<^verbatim>\<open>throw 'Requires ...'\<close>,
  \<^verbatim>\<open>reject('Cannot sync: ' + err)\<close>) or an \<^verbatim>\<open>Error\<close> object with its message.
\<close>

datatype thrown = Str string | Err string

fun js_String :: "thrown \<Rightarrow> string" where
  "js_String (Str s) = s"
| "js_String (Err m) = (if m = [] then ''Error'' else ''Error: '' @ m)"

fun truthy :: "thrown \<Rightarrow> bool" where
  "truthy (Str s) = (s \<noteq> [])"
| "truthy (Err m) = True"

text \<open>\<^verbatim>\<open>err.message || String(err)\<close>\<close>

fun message_or_String :: "thrown \<Rightarrow> string" where
  "message_or_String (Str s) = s"
| "message_or_String (Err m) = (if m \<noteq> [] then m else js_String (Err m))"

text \<open>\<^verbatim>\<open>err != c\<close> for a string constant \<open>c\<close>: an object is converted to its string first.\<close>

definition loose_neq :: "thrown \<Rightarrow> string \<Rightarrow> bool" where
  "loose_neq err c = (js_String err \<noteq> c)"

text \<open>Decimal notation of an integer, as string concatenation and \<^verbatim>\<open>join\<close> produce it.\<close>

fun show_nat :: "nat \<Rightarrow> string" where
  "show_nat n =
     (if n < 10 then [''0123456789'' ! n]
      else show_nat (n div 10) @ [''0123456789'' ! (n mod 10)])"

declare show_nat.simps [simp del]

definition show_int :: "int \<Rightarrow> string" where
  "show_int i = (if i < 0 then CHR ''-'' # show_nat (nat (- i)) else show_nat (nat i))"

fun join :: "string \<Rightarrow> string list \<Rightarrow> string" where
  "join sep [] = []"
| "join sep [x] = x"
| "join sep (x # y # r) = x @ sep @ join sep (y # r)"

definition toUpperCase :: "string \<Rightarrow> string" where
  "toUpperCase s =
     map (\<lambda>c. case map_of (zip ''abcdefghijklmnopqrstuvwxyz'' ''ABCDEFGHIJKLMNOPQRSTUVWXYZ'') c of
                 None \<Rightarrow> c | Some u \<Rightarrow> u) s"

text \<open>The arguments of \<^verbatim>\<open>sync(to, chunkLen, askedCautious, nopeers)\<close>: \<open>to\<close> is undefined,
  null or a number; \<open>chunkLen\<close> is undefined (\<open>None\<close>) or an integer; \<open>askedCautious\<close> is
  undefined (\<open>None\<close>) or a boolean; \<open>nopeers\<close> is read for its truth value only.\<close>

datatype to_arg = To_undefined | To_null | To_num int


section \<open>Data\<close>

record tx =
  signatories :: "string list"
  inputs :: "string list"
  outputs :: "string list"
  comment :: "string option"
  locktime :: "int option"
  signatures :: "string list"
  raw :: "string option"
  tx_version :: "int option"
  tx_currency :: "string option"
  issuers :: "string list option"
  hash :: "string option"

record block =
  number :: int
  version :: int
  transactions :: "tx list"

text \<open>A peering document as JSON: the six keys the synchroniser copies, and the others.\<close>

record peer_json =
  peer_version :: int
  currency :: string
  pubkey :: string
  endpoints :: "string list"
  block :: string
  signature :: string
  other_keys :: "(string \<times> string) list"

text \<open>The local Merkle tree of peers (\<^verbatim>\<open>dal.merkleForPeers()\<close>), read through \<^verbatim>\<open>root()\<close> and
  \<^verbatim>\<open>leaves()\<close>, and the summary of the remote one that \<^verbatim>\<open>NodesMerkle\<close> wraps.\<close>

record merkle =
  root :: string
  leaves :: "string list"

record NodesMerkle =
  depth :: int
  nodesCount :: int
  leavesCount :: int
  merkleRoot :: string

section \<open>Effects\<close>

datatype event = Download jsnum | Applied jsnum | Sync_true | Sync_false thrown

datatype ledger_call =
    SubmitBlock block bool bool
  | SaveBlocksInMainBranch "block list" int
  | ObsoleteInMainBranch "block option"
  | SaveParametersForRootBlock "block option"

datatype rpc_call =
    Vucoin
  | Blockchain_current
  | Blockchain_blocks int int
  | Peering_get
  | Peers_get
  | Peers_get_leaves
  | Peers_get_leaf string

text \<open>\<^verbatim>\<open>PeeringService.submitP(peer, ...)\<close> with its second and third argument when given.\<close>

datatype peer_call = SubmitP peer_json "bool option" "bool option"

datatype timer = Unset | Running | Cleared

text \<open>
  The environment: the configuration; the constants and helpers of modules that are not
  among the sources (\<^verbatim>\<open>constants\<close>, \<^verbatim>\<open>hashf\<close>, \<^verbatim>\<open>rawer\<close>, \<^verbatim>\<open>dos2unix\<close>, \<^verbatim>\<open>Peer\<close>), taken as
  parameters; and the answers of the outside. The remote node answers by request. The
  ledger and the peer service answer a call by the history of the calls made to them so
  far, the call itself last; \<open>None\<close> is a fulfilled promise, \<open>Some err\<close> a rejection.
  \<open>clock k\<close> is the value in milliseconds of the \<open>k\<close>-th \<^verbatim>\<open>new Date()\<close>.
\<close>

record env =
  host :: string
  conf_currency :: string
  DOCUMENTS_VERSION :: int
  FORK_ALLOWED :: bool
  ALREADY_RECORDED :: string
  UNKNOWN_REFERENCE_BLOCK :: string
  hashf :: "string \<Rightarrow> string"
  rawer_getTransaction :: "tx \<Rightarrow> string"
  dos2unix :: "string \<Rightarrow> string"
  Peer_getRaw :: "peer_json \<Rightarrow> string"
  Peer_signature :: "peer_json \<Rightarrow> string"
  vucoin :: "thrown option"
  getCurrentBlockOrNull :: "thrown + block option"
  blockchain_current :: "thrown + block"
  blockchain_blocks :: "int \<Rightarrow> int \<Rightarrow> thrown + block list"
  BlockchainService :: "ledger_call list \<Rightarrow> thrown option"
  getBlock :: "ledger_call list \<Rightarrow> int \<Rightarrow> thrown + block option"
  peering_get :: "thrown + peer_json"
  checkPeerSignature :: "peer_json \<Rightarrow> bool"
  submitP :: "peer_call list \<Rightarrow> thrown option"
  merkleForPeers :: "peer_call list \<Rightarrow> thrown + merkle"
  peers_get :: "thrown + NodesMerkle"
  peers_get_leaves :: "thrown + string list"
  peers_get_leaf :: "string \<Rightarrow> thrown + peer_json"
  clock :: "nat \<Rightarrow> int"

text \<open>
  The state: the variables of the \<^verbatim>\<open>Synchroniser\<close> closure (\<open>speed\<close>, \<open>syncStart\<close>,
  \<open>times\<close>, \<open>blocksApplied\<close>), those of the \<^verbatim>\<open>LoggerWatcher\<close> (\<open>downPct\<close>, \<open>appliedPct\<close>,
  \<open>lastMsg\<close>), the \<open>logInterval\<close> of the running \<^verbatim>\<open>sync\<close>, and the effects so far: the
  objects pushed on the stream, the arguments of \<^verbatim>\<open>watcher.writeStatus\<close>, the number of
  \<^verbatim>\<open>watcher.end()\<close>, the calls to the ledger, to the remote node and to the peer service,
  and the number of \<^verbatim>\<open>new Date()\<close> evaluated. The lines written by \<^verbatim>\<open>logger.info\<close> are not
  part of the model, nor is the interactive watcher, whose bars belong to a library.
\<close>

record state =
  speed :: rat
  syncStart :: int
  times_list :: "int list"
  blocksApplied :: int
  downPct :: jsnum
  appliedPct :: jsnum
  lastMsg :: "string option"
  logInterval :: timer
  pushed :: "event list"
  statuses :: "string list"
  ended :: nat
  ledger :: "ledger_call list"
  rpc :: "rpc_call list"
  peering :: "peer_call list"
  dates :: nat

definition new_Date :: "env \<Rightarrow> state \<Rightarrow> int \<times> state" where
  "new_Date e st = (clock e (dates st), st\<lparr>dates := Suc (dates st)\<rparr>)"

text \<open>The constructor: \<^verbatim>\<open>speed = 0, syncStart = new Date(), times = [syncStart],
  blocksApplied = 0\<close> and a fresh \<^verbatim>\<open>LoggerWatcher\<close>.\<close>

definition Synchroniser :: "env \<Rightarrow> state" where
  "Synchroniser e =
     \<lparr>speed = 0, syncStart = clock e 0, times_list = [clock e 0], blocksApplied = 0,
      downPct = Fin 0, appliedPct = Fin 0, lastMsg = None, logInterval = Unset,
      pushed = [], statuses = [], ended = 0, ledger = [], rpc = [], peering = [],
      dates = 1\<rparr>"

section \<open>The watcher\<close>

text \<open>\<^verbatim>\<open>LoggerWatcher\<close>: a setter stores the value whatever it is; the getter (\<open>None\<close>)
  returns the stored one.\<close>

definition LoggerWatcher_writeStatus :: "string \<Rightarrow> state \<Rightarrow> state" where
  "LoggerWatcher_writeStatus str st =
     (if Some str \<noteq> lastMsg st then st\<lparr>lastMsg := Some str\<rparr> else st)"

definition LoggerWatcher_downloadPercent :: "jsnum option \<Rightarrow> state \<Rightarrow> jsnum \<times> state" where
  "LoggerWatcher_downloadPercent pct st =
     (case pct of
        None \<Rightarrow> (downPct st, st)
      | Some p \<Rightarrow> (p, st\<lparr>downPct := p\<rparr>))"

definition LoggerWatcher_appliedPercent :: "jsnum option \<Rightarrow> state \<Rightarrow> jsnum \<times> state" where
  "LoggerWatcher_appliedPercent pct st =
     (case pct of
        None \<Rightarrow> (appliedPct st, st)
      | Some p \<Rightarrow> (p, st\<lparr>appliedPct := p\<rparr>))"

text \<open>The wrapper \<open>watcher\<close> that also pushes on the stream.\<close>

definition writeStatus :: "string \<Rightarrow> state \<Rightarrow> state" where
  "writeStatus str st = LoggerWatcher_writeStatus str (st\<lparr>statuses := statuses st @ [str]\<rparr>)"

definition downloadPercent :: "jsnum option \<Rightarrow> state \<Rightarrow> jsnum \<times> state" where
  "downloadPercent pct st =
     (let st1 =
        (case pct of
           None \<Rightarrow> st
         | Some p \<Rightarrow>
             if js_lt (fst (LoggerWatcher_downloadPercent None st)) p
             then st\<lparr>pushed := pushed st @ [Download p]\<rparr> else st)
      in LoggerWatcher_downloadPercent pct st1)"

definition appliedPercent :: "jsnum option \<Rightarrow> state \<Rightarrow> jsnum \<times> state" where
  "appliedPercent pct st =
     (let st1 =
        (case pct of
           None \<Rightarrow> st
         | Some p \<Rightarrow>
             if js_lt (fst (LoggerWatcher_appliedPercent None st)) p
             then st\<lparr>pushed := pushed st @ [Applied p]\<rparr> else st)
      in LoggerWatcher_appliedPercent pct st1)"

definition watcher_end :: "state \<Rightarrow> state" where
  "watcher_end st = st\<lparr>ended := Suc (ended st)\<rparr>"

section \<open>The chunk planner of \<open>sync\<close>\<close>

text \<open>
  The planner is the loop
  \<^verbatim>\<open>for (let i = localNumber + 1; i <= remoteNumber; i = i + chunkLen)
    chunks.push([i, Math.min(i + chunkLen - 1, remoteNumber)]);\<close>
  Block numbers and the chunk width are integers. With a negative width the loop never
  ends; not returning is the value \<open>None\<close>.
\<close>

partial_function (option) plan_loop ::
  "int \<Rightarrow> int \<Rightarrow> int \<Rightarrow> (int \<times> int) list \<Rightarrow> (int \<times> int) list option" where
  "plan_loop i remoteNumber chunkLen chunks =
     (if i \<le> remoteNumber
      then plan_loop (i + chunkLen) remoteNumber chunkLen
             (chunks @ [(i, min (i + chunkLen - 1) remoteNumber)])
      else Some chunks)"

declare plan_loop.simps [code]

definition plan_chunks :: "int \<Rightarrow> int \<Rightarrow> int \<Rightarrow> (int \<times> int) list option" where
  "plan_chunks localNumber remoteNumber chunkLen =
     plan_loop (localNumber + 1) remoteNumber chunkLen []"

text \<open>The same loop as a total function, for widths of at least one.\<close>

function chunks_from :: "int \<Rightarrow> int \<Rightarrow> int \<Rightarrow> (int \<times> int) list" where
  "chunks_from i remoteNumber chunkLen =
     (if 1 \<le> chunkLen \<and> i \<le> remoteNumber
      then (i, min (i + chunkLen - 1) remoteNumber) # chunks_from (i + chunkLen) remoteNumber chunkLen
      else [])"
  by pat_completeness auto
termination
  by (relation "measure (\<lambda>(i, remoteNumber, chunkLen). nat (remoteNumber - i + 1))") auto

declare chunks_from.simps [simp del]

text \<open>The chunk list as the specification writes it: chunk \<open>k\<close> is
  \<open>[L + 1 + k C, min (L + (k + 1) C, R)]\<close>, for \<open>k\<close> below the number of chunks.\<close>

definition chunk_count :: "int \<Rightarrow> int \<Rightarrow> int \<Rightarrow> nat" where
  "chunk_count L R C = nat ((R - L + C - 1) div C)"

definition spec_chunks :: "int \<Rightarrow> int \<Rightarrow> int \<Rightarrow> (int \<times> int) list" where
  "spec_chunks L R C =
     map (\<lambda>k. (L + 1 + int k * C, min (L + (int k + 1) * C) R)) [0..<chunk_count L R C]"

text \<open>The block numbers a chunk list covers, in order.\<close>

definition covered :: "(int \<times> int) list \<Rightarrow> int list" where
  "covered chunks = concat (map (\<lambda>(a, b). [a..b]) chunks)"

section \<open>The speed estimator and the applier\<close>

definition CONST_BLOCKS_CHUNK :: int where
  "CONST_BLOCKS_CHUNK = 500"

definition COMPUTE_SPEED_ON_COUNT_CHUNKS :: nat where
  "COMPUTE_SPEED_ON_COUNT_CHUNKS = 8"

text \<open>\<^verbatim>\<open>times.reduce(function(sum, t, index) {
    return index == 0 ? sum : (sum + (times[index] - times[index - 1])); }, 0)\<close>\<close>

definition duration_of :: "int list \<Rightarrow> int" where
  "duration_of ts =
     foldl (\<lambda>sum index. if index = 0 then sum else sum + (ts ! index - ts ! (index - 1)))
       0 [0..<length ts]"

text \<open>\<^verbatim>\<open>if (watcher.appliedPercent() != p) watcher.appliedPercent(p)\<close>\<close>

definition update_applied :: "jsnum \<Rightarrow> state \<Rightarrow> state" where
  "update_applied p st =
     (if js_neq (fst (appliedPercent None st)) p then snd (appliedPercent (Some p) st) else st)"

definition incrementBlocks :: "env \<Rightarrow> int \<Rightarrow> int \<Rightarrow> int \<Rightarrow> int \<Rightarrow> state \<Rightarrow> state" where
  "incrementBlocks e chunkLen localNumber remoteNumber increment st =
     (let st1 = st\<lparr>blocksApplied := blocksApplied st + increment\<rparr>;
          (now, st2) = new_Date e st1;
          ts = (if length (times_list st2) = COMPUTE_SPEED_ON_COUNT_CHUNKS
                then drop 1 (times_list st2) else times_list st2) @ [now];
          duration = duration_of ts;
          st3 = st2\<lparr>times_list := ts,
                    speed := of_int (chunkLen * (int (length ts) - 1))
                               / of_int (js_round (max (of_int duration / 1000) 1))\<rparr>;
          (start, st4) = new_Date e st3;
          st5 = st4\<lparr>syncStart := start\<rparr>
      in update_applied (floor_pct (blocksApplied st5 + localNumber) remoteNumber) st5)"

text \<open>The "rawification" of a transaction in \<^verbatim>\<open>applyGivenBlock\<close>. \<^verbatim>\<open>tx.comment\<close> is taken when
  it is a non-empty string, \<^verbatim>\<open>tx.locktime || 0\<close> is zero for an absent locktime.\<close>

definition has_comment :: "tx \<Rightarrow> bool" where
  "has_comment t = (case comment t of None \<Rightarrow> False | Some c \<Rightarrow> c \<noteq> [])"

definition comment_line :: "tx \<Rightarrow> string" where
  "comment_line t =
     (case comment t of None \<Rightarrow> [] | Some c \<Rightarrow> if c = [] then [] else c @ ''\<newline>'')"

definition tx_raw :: "env \<Rightarrow> tx \<Rightarrow> string" where
  "tx_raw e t =
     join '':'' [''TX'', show_int (DOCUMENTS_VERSION e), show_nat (length (signatories t)),
                 show_nat (length (inputs t)), show_nat (length (outputs t)),
                 (if has_comment t then ''1'' else ''0''),
                 show_int (case locktime t of None \<Rightarrow> 0 | Some n \<Rightarrow> n)] @ ''\<newline>''
     @ join ''\<newline>'' (signatories t) @ ''\<newline>''
     @ join ''\<newline>'' (inputs t) @ ''\<newline>''
     @ join ''\<newline>'' (outputs t) @ ''\<newline>''
     @ comment_line t
     @ join ''\<newline>'' (signatures t) @ ''\<newline>''"

definition rawify :: "env \<Rightarrow> tx \<Rightarrow> tx" where
  "rawify e t =
     (let t1 = t\<lparr>raw := Some (tx_raw e t)\<rparr>;
          t2 = t1\<lparr>tx_version := Some (DOCUMENTS_VERSION e)\<rparr>;
          t3 = t2\<lparr>tx_currency := Some (conf_currency e)\<rparr>;
          t4 = t3\<lparr>issuers := Some (signatories t3)\<rparr>
      in t4\<lparr>hash := Some (toUpperCase (hashf e (rawer_getTransaction e t4)))\<rparr>)"

text \<open>The canonical form as the specification words it: the header line, then each
  signatory, each input, each output, the comment if present and each signature on a line
  of its own, every line ended by a newline.\<close>

definition each_on_own_line :: "string list \<Rightarrow> string" where
  "each_on_own_line xs = concat (map (\<lambda>x. x @ ''\<newline>'') xs)"

definition spec_canonical_tx :: "int \<Rightarrow> tx \<Rightarrow> string" where
  "spec_canonical_tx doc_version t =
     ''TX:'' @ show_int doc_version @ '':'' @ show_nat (length (signatories t)) @ '':''
       @ show_nat (length (inputs t)) @ '':'' @ show_nat (length (outputs t)) @ '':''
       @ (if has_comment t then ''1'' else ''0'') @ '':''
       @ show_int (case locktime t of None \<Rightarrow> 0 | Some n \<Rightarrow> n) @ ''\<newline>''
     @ each_on_own_line (signatories t)
     @ each_on_own_line (inputs t)
     @ each_on_own_line (outputs t)
     @ comment_line t
     @ each_on_own_line (signatures t)"

definition call_ledger :: "env \<Rightarrow> ledger_call \<Rightarrow> state \<Rightarrow> thrown option \<times> state" where
  "call_ledger e c st =
     (let st1 = st\<lparr>ledger := ledger st @ [c]\<rparr> in (BlockchainService e (ledger st1), st1))"

definition applyGivenBlock ::
  "env \<Rightarrow> bool \<Rightarrow> int \<Rightarrow> block \<Rightarrow> state \<Rightarrow> thrown option \<times> state" where
  "applyGivenBlock e cautious remoteCurrentNumber b st =
     (let b1 = b\<lparr>transactions := map (rawify e) (transactions b)\<rparr>;
          st1 = st\<lparr>blocksApplied := blocksApplied st + 1\<rparr>;
          (now, st2) = new_Date e st1;
          st3 = st2\<lparr>speed := of_int (blocksApplied st2)
                               / of_int (js_round (max (of_int (now - syncStart st2) / 1000) 1))\<rparr>;
          st4 = update_applied (floor_pct (number b1) remoteCurrentNumber) st3
      in call_ledger e (SubmitBlock b1 cautious (FORK_ALLOWED e)) st4)"

text \<open>The loop over the sorted blocks of one chunk in cautious mode.\<close>

fun apply_cautious ::
  "env \<Rightarrow> int \<Rightarrow> int \<Rightarrow> int \<Rightarrow> block list \<Rightarrow> state \<Rightarrow> thrown option \<times> state" where
  "apply_cautious e chunkLen localNumber remoteNumber [] st = (None, st)"
| "apply_cautious e chunkLen localNumber remoteNumber (b # bs) st =
     (case applyGivenBlock e True remoteNumber b st of
        (Some err, st1) \<Rightarrow> (Some err, st1)
      | (None, st1) \<Rightarrow>
          apply_cautious e chunkLen localNumber remoteNumber bs
            (incrementBlocks e chunkLen localNumber remoteNumber 1 st1))"

text \<open>The other mode: one bulk save of the sorted blocks of the chunk. Afterwards the source
  empties the array it passed, for every chunk but the last; the history of the ledger
  keeps the array as it was passed.\<close>

definition apply_fast ::
  "env \<Rightarrow> int \<Rightarrow> int \<Rightarrow> int \<Rightarrow> block list \<Rightarrow> state \<Rightarrow> thrown option \<times> state" where
  "apply_fast e chunkLen localNumber remoteNumber blocks st =
     (case call_ledger e (SaveBlocksInMainBranch blocks remoteNumber) st of
        (Some err, st1) \<Rightarrow> (Some err, st1)
      | (None, st1) \<Rightarrow>
          (None, incrementBlocks e chunkLen localNumber remoteNumber (int (length blocks)) st1))"

section \<open>The download pipeline\<close>

text \<open>The download of one chunk \<open>[first, last]\<close>: the percentage of its first number, the
  request \<^verbatim>\<open>blocks(last - first + 1, first)\<close>, the percentage of its last number.\<close>

definition download :: "env \<Rightarrow> int \<Rightarrow> int \<times> int \<Rightarrow> state \<Rightarrow> (thrown + block list) \<times> state" where
  "download e remoteNumber chunk st =
     (let st1 = snd (downloadPercent (Some (floor_pct (fst chunk) remoteNumber)) st);
          st2 = st1\<lparr>rpc := rpc st1 @ [Blockchain_blocks (snd chunk - fst chunk + 1) (fst chunk)]\<rparr>
      in case blockchain_blocks e (snd chunk - fst chunk + 1) (fst chunk) of
           Inl err \<Rightarrow> (Inl err, st2)
         | Inr blocks \<Rightarrow>
             (Inr blocks, snd (downloadPercent (Some (floor_pct (snd chunk) remoteNumber)) st2)))"

text \<open>
  Downloads are chained, each starting when the one before is done, and the applier takes
  the chunks in order, each when its download is done. The model runs the two in lock
  step: chunk \<open>i\<close> is downloaded, then applied, then chunk \<open>i + 1\<close> is downloaded. In the
  source a later download may overlap the application of an earlier chunk; the order of
  the calls to the ledger, of the requests to the remote node, of the download events
  among themselves and of the applied events among themselves is the same. The function
  returns the downloaded array of the last chunk (\<^verbatim>\<open>lastChunk[2]\<close>, not sorted).
\<close>

fun apply_chunks ::
  "env \<Rightarrow> bool \<Rightarrow> int \<Rightarrow> int \<Rightarrow> int \<Rightarrow> (int \<times> int) list \<Rightarrow> block list option \<Rightarrow> state
     \<Rightarrow> (thrown + block list option) \<times> state" where
  "apply_chunks e cautious chunkLen localNumber remoteNumber [] lastBlocks st =
     (Inr lastBlocks, st)"
| "apply_chunks e cautious chunkLen localNumber remoteNumber (chunk # chunks) lastBlocks st =
     (case download e remoteNumber chunk st of
        (Inl err, st1) \<Rightarrow> (Inl err, st1)
      | (Inr downloaded, st1) \<Rightarrow>
          (let blocks = sort_key number downloaded
           in case (if cautious
                    then apply_cautious e chunkLen localNumber remoteNumber blocks st1
                    else apply_fast e chunkLen localNumber remoteNumber blocks st1) of
                (Some err, st2) \<Rightarrow> (Inl err, st2)
              | (None, st2) \<Rightarrow>
                  apply_chunks e cautious chunkLen localNumber remoteNumber chunks
                    (Some downloaded) st2))"

text \<open>After the loop: \<^verbatim>\<open>obsoleteInMainBranch\<close> of the last element of the last downloaded
  array when not cautious and there was a chunk, \<^verbatim>\<open>appliedPercent(100.0)\<close>, and the
  parameters of the root block.\<close>

definition finish_blocks ::
  "env \<Rightarrow> bool \<Rightarrow> block list option \<Rightarrow> state \<Rightarrow> (thrown + unit) \<times> state" where
  "finish_blocks e cautious lastBlocks st =
     (case (case lastBlocks of
              Some lastBlocks' \<Rightarrow>
                if \<not> cautious
                then call_ledger e
                       (ObsoleteInMainBranch
                          (if lastBlocks' = [] then None else Some (last lastBlocks'))) st
                else (None, st)
            | None \<Rightarrow> (None, st)) of
        (Some err, st1) \<Rightarrow> (Inl err, st1)
      | (None, st1) \<Rightarrow>
          (let st2 = snd (appliedPercent (Some (Fin 100)) st1)
           in case getBlock e (ledger st2) 0 of
                Inl err \<Rightarrow> (Inl err, st2)
              | Inr rootBlock \<Rightarrow>
                  (case call_ledger e (SaveParametersForRootBlock rootBlock) st2 of
                     (Some err, st3) \<Rightarrow> (Inl err, st3)
                   | (None, st3) \<Rightarrow> (Inr (), st3))))"

section \<open>Peers\<close>

definition call_submitP :: "env \<Rightarrow> peer_call \<Rightarrow> state \<Rightarrow> thrown option \<times> state" where
  "call_submitP e c st =
     (let st1 = st\<lparr>peering := peering st @ [c]\<rparr> in (submitP e (peering st1), st1))"

definition syncPeer :: "env \<Rightarrow> state \<Rightarrow> (thrown + unit) \<times> state" where
  "syncPeer e st =
     (let st1 = st\<lparr>rpc := rpc st @ [Peering_get]\<rparr>
      in case peering_get e of
           Inl err \<Rightarrow> (Inl err, st1)
         | Inr json \<Rightarrow>
             if \<not> (Peer_getRaw e json \<noteq> [] \<and> dos2unix e (Peer_signature e json) \<noteq> [])
             then (Inl (Str ''Requires a peering entry + signature''), st1)
             else
               (let st2 = (if \<not> checkPeerSignature e json
                           then writeStatus (''Wrong signature for peer #'' @ pubkey json) st1
                           else st1)
                in case call_submitP e (SubmitP json None None) st2 of
                     (None, st3) \<Rightarrow> (Inr (), st3)
                   | (Some err, st3) \<Rightarrow>
                       if loose_neq err (ALREADY_RECORDED e)
                          \<and> loose_neq err (UNKNOWN_REFERENCE_BLOCK e)
                       then (Inl err, st3) else (Inr (), st3)))"

text \<open>The entry built from the value of a leaf: five keys copied, then the signature.\<close>

definition entry_of :: "peer_json \<Rightarrow> peer_json" where
  "entry_of jsonEntry =
     \<lparr>peer_version = peer_version jsonEntry, currency = currency jsonEntry,
      pubkey = pubkey jsonEntry, endpoints = endpoints jsonEntry, block = block jsonEntry,
      signature = signature jsonEntry, other_keys = []\<rparr>"

fun add_leaves :: "env \<Rightarrow> to_arg \<Rightarrow> string list \<Rightarrow> state \<Rightarrow> (thrown + unit) \<times> state" where
  "add_leaves e to [] st = (Inr (), st)"
| "add_leaves e to (leaf # leavesToAdd) st =
     (let st1 = st\<lparr>rpc := rpc st @ [Peers_get_leaf leaf]\<rparr>
      in case peers_get_leaf e leaf of
           Inl err \<Rightarrow> (Inl err, st1)
         | Inr jsonEntry \<Rightarrow>
             (let entry = entry_of jsonEntry;
                  st2 = writeStatus (''Peer '' @ pubkey entry) st1
              in case call_submitP e (SubmitP entry (Some False) (Some (to = To_undefined))) st2 of
                   (Some err, st3) \<Rightarrow> (Inl err, st3)
                 | (None, st3) \<Rightarrow> add_leaves e to leavesToAdd st3))"

text \<open>The comparison of the Merkle roots and the fetching of the leaves the local tree
  does not have.\<close>

definition reconcile :: "env \<Rightarrow> to_arg \<Rightarrow> state \<Rightarrow> (thrown + unit) \<times> state" where
  "reconcile e to st =
     (case merkleForPeers e (peering st) of
        Inl err \<Rightarrow> (Inl err, st)
      | Inr merkle \<Rightarrow>
          (let st1 = st\<lparr>rpc := rpc st @ [Peers_get]\<rparr>
           in case peers_get e of
                Inl err \<Rightarrow> (Inl err, st1)
              | Inr json2 \<Rightarrow>
                  if merkleRoot json2 \<noteq> root merkle
                  then
                    (let st2 = st1\<lparr>rpc := rpc st1 @ [Peers_get_leaves]\<rparr>
                     in case peers_get_leaves e of
                          Inl err \<Rightarrow> (Inl err, st2)
                        | Inr remote_leaves \<Rightarrow>
                            add_leaves e to
                              (filter (\<lambda>leaf. leaf \<notin> set (leaves merkle)) remote_leaves) st2)
                  else (Inr (), writeStatus ''Peers already known'' st1)))"

definition peers_phase :: "env \<Rightarrow> to_arg \<Rightarrow> state \<Rightarrow> (thrown + unit) \<times> state" where
  "peers_phase e to st =
     (case syncPeer e (writeStatus ''Peers...'' st) of
        (Inl err, st1) \<Rightarrow> (Inl err, st1)
      | (Inr u, st1) \<Rightarrow> reconcile e to st1)"

section \<open>The orchestrator\<close>

text \<open>From the call to the start of the timer: connection, local and remote current
  block, version check, \<open>localNumber\<close>, \<open>remoteNumber\<close> and the mode.\<close>

definition remote_target :: "int \<Rightarrow> to_arg \<Rightarrow> int" where
  "remote_target rnumber to =
     min rnumber (case to of To_num n \<Rightarrow> if n = 0 then rnumber else n | _ \<Rightarrow> rnumber)"

text \<open>The target as the specification words it: the minimum of the remote current number
  and \<open>to\<close>, whenever \<open>to\<close> is a number.\<close>

definition spec_target :: "int \<Rightarrow> to_arg \<Rightarrow> int" where
  "spec_target rnumber to = (case to of To_num n \<Rightarrow> min rnumber n | _ \<Rightarrow> rnumber)"

definition use_cautious :: "bool option \<Rightarrow> int \<Rightarrow> bool" where
  "use_cautious askedCautious localNumber =
     (askedCautious = Some True \<or> (askedCautious = None \<and> 0 \<le> localNumber))"

definition connect :: "env \<Rightarrow> to_arg \<Rightarrow> bool option \<Rightarrow> state \<Rightarrow> (thrown + int \<times> int \<times> bool) \<times> state" where
  "connect e to askedCautious st =
     (let st1 = st\<lparr>rpc := rpc st @ [Vucoin]\<rparr>
      in case vucoin e of
           Some err \<Rightarrow> (Inl (Str (''Cannot sync: '' @ js_String err)), st1)
         | None \<Rightarrow>
             (case getCurrentBlockOrNull e of
                Inl err \<Rightarrow> (Inl err, st1)
              | Inr lCurrent \<Rightarrow>
                  (let st2 = writeStatus (''Connecting to '' @ host e @ ''...'') st1;
                       st3 = st2\<lparr>rpc := rpc st2 @ [Blockchain_current]\<rparr>
                   in case blockchain_current e of
                        Inl err \<Rightarrow> (Inl err, st3)
                      | Inr rCurrent \<Rightarrow>
                          if version rCurrent < 2
                          then (Inl (Err (''Could not sync with remote host. UCP version is ''
                                            @ show_int (version rCurrent) @ '' (Must be >= 2)'')),
                                st3)
                          else
                            (let localNumber =
                                   (case lCurrent of None \<Rightarrow> - 1 | Some b \<Rightarrow> number b);
                                 remoteNumber = remote_target (number rCurrent) to;
                                 cautious = use_cautious askedCautious localNumber
                             in (Inr (localNumber, remoteNumber, cautious),
                                 st3\<lparr>logInterval := Running\<rparr>)))))"

text \<open>The \<^verbatim>\<open>catch\<close> block. Replacing the promises of \<open>toApply\<close> has no effect in the model.\<close>

definition on_error :: "thrown \<Rightarrow> state \<Rightarrow> (thrown + unit) \<times> state" where
  "on_error err st =
     (let st1 = st\<lparr>pushed := pushed st @ [Sync_false err]\<rparr>;
          st2 = (if logInterval st1 \<noteq> Unset then st1\<lparr>logInterval := Cleared\<rparr> else st1);
          st3 = (if truthy err then writeStatus (message_or_String err) st2 else st2)
      in (Inl err, watcher_end st3))"

definition blocks_and_peers ::
  "env \<Rightarrow> to_arg \<Rightarrow> int \<Rightarrow> bool \<Rightarrow> int \<Rightarrow> int \<Rightarrow> bool \<Rightarrow> (int \<times> int) list \<Rightarrow> state
     \<Rightarrow> (thrown + unit) \<times> state" where
  "blocks_and_peers e to chunkLen nopeers localNumber remoteNumber cautious chunks st =
     (case apply_chunks e cautious chunkLen localNumber remoteNumber chunks None st of
        (Inl err, st1) \<Rightarrow> (Inl err, st1)
      | (Inr lastBlocks, st1) \<Rightarrow>
          (case finish_blocks e cautious lastBlocks st1 of
             (Inl err, st2) \<Rightarrow> (Inl err, st2)
           | (Inr u, st2) \<Rightarrow>
               (case (if \<not> nopeers then peers_phase e to st2 else (Inr (), st2)) of
                  (Inl err, st3) \<Rightarrow> (Inl err, st3)
                | (Inr u, st3) \<Rightarrow>
                    (let st4 = watcher_end st3
                     in (Inr (), st4\<lparr>pushed := pushed st4 @ [Sync_true]\<rparr>)))))"

text \<open>\<^verbatim>\<open>chunkLen = chunkLen || CONST_BLOCKS_CHUNK\<close>\<close>

definition chunkLen_or_default :: "int option \<Rightarrow> int" where
  "chunkLen_or_default chunkLen =
     (case chunkLen of
        None \<Rightarrow> CONST_BLOCKS_CHUNK
      | Some c \<Rightarrow> if c = 0 then CONST_BLOCKS_CHUNK else c)"

text \<open>\<^verbatim>\<open>sync(to, chunkLen, askedCautious, nopeers)\<close>. \<open>None\<close>: the planner loop does not end.\<close>

definition sync ::
  "env \<Rightarrow> to_arg \<Rightarrow> int option \<Rightarrow> bool option \<Rightarrow> bool \<Rightarrow> state \<Rightarrow> ((thrown + unit) \<times> state) option" where
  "sync e to chunkLen askedCautious nopeers st =
     (let chunkLen' = chunkLen_or_default chunkLen
      in case connect e to askedCautious (st\<lparr>logInterval := Unset\<rparr>) of
           (Inl err, st1) \<Rightarrow> Some (on_error err st1)
         | (Inr (localNumber, remoteNumber, cautious), st1) \<Rightarrow>
             (case plan_chunks localNumber remoteNumber chunkLen' of
                None \<Rightarrow> None
              | Some chunks \<Rightarrow>
                  (case blocks_and_peers e to chunkLen' nopeers localNumber remoteNumber cautious
                          chunks st1 of
                     (Inl err, st2) \<Rightarrow> Some (on_error err st2)
                   | (Inr u, st2) \<Rightarrow> Some (Inr (), st2))))"

text \<open>The blocks a call to the ledger delivers, and those of a whole history.\<close>

fun submitted :: "ledger_call \<Rightarrow> block list" where
  "submitted (SubmitBlock b cautious fork) = [b]"
| "submitted (SaveBlocksInMainBranch blocks remoteNumber) = blocks"
| "submitted (ObsoleteInMainBranch b) = []"
| "submitted (SaveParametersForRootBlock b) = []"

definition delivered :: "ledger_call list \<Rightarrow> block list" where
  "delivered calls = concat (map submitted calls)"

text \<open>The remote node answers \<^verbatim>\<open>blocks(count, from)\<close>, when it answers, with the \<open>count\<close>
  blocks numbered from \<open>from\<close>, in some order.\<close>

definition honest_remote :: "env \<Rightarrow> bool" where
  "honest_remote e =
     (\<forall>count from blocks. blockchain_blocks e count from = Inr blocks \<longrightarrow>
        mset (map number blocks) = mset [from..from + count - 1])"


definition local_height :: "env \<Rightarrow> int" where
  "local_height e =
     (case getCurrentBlockOrNull e of Inr (Some b) \<Rightarrow> number b | _ \<Rightarrow> - 1)"

section \<open>Scenarios\<close>

text \<open>A remote node with a chain of numbered blocks that answers every request (its blocks
  in descending order), a ledger and a peer service that accept every call, a local peer
  tree with the one leaf \<open>a\<close> and a remote one with the leaves \<open>a\<close>, \<open>b\<close>, \<open>c\<close>, and a clock
  that advances by one second at each reading. The two arguments are the local and the
  remote current block.\<close>

definition block_numbered :: "int \<Rightarrow> block" where
  "block_numbered n = \<lparr>number = n, version = 2, transactions = []\<rparr>"

definition peer_of :: "string \<Rightarrow> peer_json" where
  "peer_of k =
     \<lparr>peer_version = 2, currency = ''beta'', pubkey = k,
      endpoints = [''BASIC_MERKLED_API remote 8999''], block = ''0-ABC'', signature = ''SIG'',
      other_keys = [(''status'', ''UP'')]\<rparr>"

definition scenario :: "block option \<Rightarrow> block \<Rightarrow> env" where
  "scenario lCurrent rCurrent =
     \<lparr>host = ''remote'', conf_currency = ''beta'', DOCUMENTS_VERSION = 2, FORK_ALLOWED = True,
      ALREADY_RECORDED = ''Peer document is older than currently recorded'',
      UNKNOWN_REFERENCE_BLOCK = ''Unknown reference block of peer'',
      hashf = (\<lambda>s. ''0a1b''),
      rawer_getTransaction = (\<lambda>t. case raw t of None \<Rightarrow> [] | Some r \<Rightarrow> r),
      dos2unix = (\<lambda>s. s),
      Peer_getRaw = (\<lambda>json. pubkey json),
      Peer_signature = (\<lambda>json. signature json),
      vucoin = None,
      getCurrentBlockOrNull = Inr lCurrent,
      blockchain_current = Inr rCurrent,
      blockchain_blocks = (\<lambda>count from. Inr (rev (map block_numbered [from..from + count - 1]))),
      BlockchainService = (\<lambda>calls. None),
      getBlock = (\<lambda>calls n. Inr (Some (block_numbered n))),
      peering_get = Inr (peer_of ''REMOTE''),
      checkPeerSignature = (\<lambda>json. True),
      submitP = (\<lambda>calls. None),
      merkleForPeers = (\<lambda>calls. Inr \<lparr>root = ''R1'', leaves = [''a'']\<rparr>),
      peers_get = Inr \<lparr>depth = 2, nodesCount = 5, leavesCount = 3, merkleRoot = ''R2''\<rparr>,
      peers_get_leaves = Inr [''a'', ''b'', ''c''],
      peers_get_leaf = (\<lambda>leaf. Inr (peer_of leaf)),
      clock = (\<lambda>k. 1000 * int k)\<rparr>"

text \<open>The same with a remote node that fails every request for blocks.\<close>

definition failing_download :: "env \<Rightarrow> env" where
  "failing_download e = e\<lparr>blockchain_blocks := (\<lambda>count from. Inl (Str ''ETIMEDOUT''))\<rparr>"

text \<open>The same with a remote peer tree that has the root of the local one.\<close>

definition same_root :: "env \<Rightarrow> env" where
  "same_root e =
     e\<lparr>peers_get := Inr \<lparr>depth = 2, nodesCount = 5, leavesCount = 3, merkleRoot = ''R1''\<rparr>\<rparr>"

text \<open>The same with a peer service that answers every call with the given rejection, and
  with a signature check that fails.\<close>

definition rejecting_peers :: "thrown \<Rightarrow> env \<Rightarrow> env" where
  "rejecting_peers err e = e\<lparr>checkPeerSignature := (\<lambda>json. False), submitP := (\<lambda>calls. Some err)\<rparr>"

text \<open>A transaction as a remote node sends it, and a block that holds it.\<close>

definition example_tx :: tx where
  "example_tx =
     \<lparr>signatories = [''HgTT''], inputs = [''0:T:1:ABCD:10''], outputs = [''BYfW:10''],
      comment = Some ''hello'', locktime = None, signatures = [''SIG1''], raw = None,
      tx_version = None, tx_currency = None, issuers = None, hash = None\<rparr>"

definition example_block :: block where
  "example_block = \<lparr>number = 1, version = 2, transactions = [example_tx]\<rparr>"

section \<open>The watcher\<close>

text \<open>A setter call pushes its value when it is above the value stored by the base watcher,
  and stores it in either case; the getter changes nothing.\<close>

lemma downloadPercent_set:
  "downloadPercent (Some p) st =
     (p, st\<lparr>pushed := pushed st @ (if js_lt (downPct st) p then [Download p] else []),
            downPct := p\<rparr>)"
  by (simp add: downloadPercent_def LoggerWatcher_downloadPercent_def Let_def)

lemma appliedPercent_set:
  "appliedPercent (Some p) st =
     (p, st\<lparr>pushed := pushed st @ (if js_lt (appliedPct st) p then [Applied p] else []),
            appliedPct := p\<rparr>)"
  by (simp add: appliedPercent_def LoggerWatcher_appliedPercent_def Let_def)

lemma percent_get:
  "downloadPercent None st = (downPct st, st)" "appliedPercent None st = (appliedPct st, st)"
  by (simp_all add: downloadPercent_def LoggerWatcher_downloadPercent_def appliedPercent_def
      LoggerWatcher_appliedPercent_def Let_def)

section \<open>What each operation leaves unchanged\<close>

lemma new_Date_frame [simp]:
  "ledger (snd (new_Date e st)) = ledger st"
  "rpc (snd (new_Date e st)) = rpc st"
  "peering (snd (new_Date e st)) = peering st"
  "logInterval (snd (new_Date e st)) = logInterval st"
  "pushed (snd (new_Date e st)) = pushed st"
  "appliedPct (snd (new_Date e st)) = appliedPct st"
  "downPct (snd (new_Date e st)) = downPct st"
  by (simp_all add: new_Date_def)

lemma writeStatus_frame [simp]:
  "ledger (writeStatus s st) = ledger st"
  "rpc (writeStatus s st) = rpc st"
  "peering (writeStatus s st) = peering st"
  "logInterval (writeStatus s st) = logInterval st"
  "pushed (writeStatus s st) = pushed st"
  "appliedPct (writeStatus s st) = appliedPct st"
  "downPct (writeStatus s st) = downPct st"
  by (simp_all add: writeStatus_def LoggerWatcher_writeStatus_def)

lemma watcher_end_frame [simp]:
  "ledger (watcher_end st) = ledger st"
  "rpc (watcher_end st) = rpc st"
  "peering (watcher_end st) = peering st"
  "logInterval (watcher_end st) = logInterval st"
  "pushed (watcher_end st) = pushed st"
  by (simp_all add: watcher_end_def)

lemma downloadPercent_frame [simp]:
  "ledger (snd (downloadPercent p st)) = ledger st"
  "rpc (snd (downloadPercent p st)) = rpc st"
  "peering (snd (downloadPercent p st)) = peering st"
  "logInterval (snd (downloadPercent p st)) = logInterval st"
  "appliedPct (snd (downloadPercent p st)) = appliedPct st"
  by (simp_all add: downloadPercent_def LoggerWatcher_downloadPercent_def Let_def split: option.splits)

lemma appliedPercent_frame [simp]:
  "ledger (snd (appliedPercent p st)) = ledger st"
  "rpc (snd (appliedPercent p st)) = rpc st"
  "peering (snd (appliedPercent p st)) = peering st"
  "logInterval (snd (appliedPercent p st)) = logInterval st"
  "downPct (snd (appliedPercent p st)) = downPct st"
  by (simp_all add: appliedPercent_def LoggerWatcher_appliedPercent_def Let_def split: option.splits)

lemma update_applied_frame [simp]:
  "ledger (update_applied p st) = ledger st"
  "rpc (update_applied p st) = rpc st"
  "peering (update_applied p st) = peering st"
  "logInterval (update_applied p st) = logInterval st"
  "downPct (update_applied p st) = downPct st"
  by (simp_all add: update_applied_def)

lemma incrementBlocks_frame [simp]:
  "ledger (incrementBlocks e C L R n st) = ledger st"
  "rpc (incrementBlocks e C L R n st) = rpc st"
  "peering (incrementBlocks e C L R n st) = peering st"
  "logInterval (incrementBlocks e C L R n st) = logInterval st"
  "downPct (incrementBlocks e C L R n st) = downPct st"
  by (simp_all add: incrementBlocks_def Let_def new_Date_def split_beta)

lemma call_ledger_frame [simp]:
  "ledger (snd (call_ledger e c st)) = ledger st @ [c]"
  "rpc (snd (call_ledger e c st)) = rpc st"
  "peering (snd (call_ledger e c st)) = peering st"
  "logInterval (snd (call_ledger e c st)) = logInterval st"
  "pushed (snd (call_ledger e c st)) = pushed st"
  "appliedPct (snd (call_ledger e c st)) = appliedPct st"
  "downPct (snd (call_ledger e c st)) = downPct st"
  by (simp_all add: call_ledger_def Let_def)

lemma call_submitP_frame [simp]:
  "ledger (snd (call_submitP e c st)) = ledger st"
  "rpc (snd (call_submitP e c st)) = rpc st"
  "peering (snd (call_submitP e c st)) = peering st @ [c]"
  "logInterval (snd (call_submitP e c st)) = logInterval st"
  "pushed (snd (call_submitP e c st)) = pushed st"
  by (simp_all add: call_submitP_def Let_def)

lemma applyGivenBlock_frame [simp]:
  "ledger (snd (applyGivenBlock e c R b st)) =
     ledger st @ [SubmitBlock (b\<lparr>transactions := map (rawify e) (transactions b)\<rparr>) c (FORK_ALLOWED e)]"
  "rpc (snd (applyGivenBlock e c R b st)) = rpc st"
  "peering (snd (applyGivenBlock e c R b st)) = peering st"
  "logInterval (snd (applyGivenBlock e c R b st)) = logInterval st"
  "downPct (snd (applyGivenBlock e c R b st)) = downPct st"
  by (simp_all add: applyGivenBlock_def Let_def new_Date_def split_beta)

lemma apply_cautious_logInterval [simp]:
  "logInterval (snd (apply_cautious e C L R bs st)) = logInterval st"
  by (induction bs arbitrary: st) (simp_all add: split_beta split: option.splits)

lemma apply_fast_logInterval [simp]:
  "logInterval (snd (apply_fast e C L R bs st)) = logInterval st"
  by (simp add: apply_fast_def split_beta split: option.splits)

lemma download_logInterval [simp]:
  "logInterval (snd (download e R c st)) = logInterval st"
  by (auto simp: download_def Let_def split: sum.splits)

lemma apply_chunks_logInterval [simp]:
  "logInterval (snd (apply_chunks e c C L R chunks lb st)) = logInterval st"
proof (induction chunks arbitrary: lb st)
  case Nil
  then show ?case by simp
next
  case (Cons chunk chunks)
  show ?case
  proof (cases "download e R chunk st")
    case (Pair r st1)
    then have st1: "logInterval st1 = logInterval st"
      using download_logInterval [of e R chunk st] by simp
    show ?thesis
    proof (cases r)
      case (Inl err)
      then show ?thesis using Pair st1 by simp
    next
      case (Inr downloaded)
      let ?ap = "if c then apply_cautious e C L R (sort_key number downloaded) st1
                 else apply_fast e C L R (sort_key number downloaded) st1"
      have st2: "logInterval (snd ?ap) = logInterval st" using st1 by simp
      show ?thesis
      proof (cases ?ap)
        case (Pair r2 st2')
        with st2 have "logInterval st2' = logInterval st" by simp
        then show ?thesis
          using \<open>download e R chunk st = (r, st1)\<close> Inr Pair Cons.IH [of "Some downloaded" st2']
          by (cases r2) (simp_all add: Let_def)
      qed
    qed
  qed
qed

lemma finish_blocks_logInterval [simp]:
  "logInterval (snd (finish_blocks e c lb st)) = logInterval st"
  by (simp add: finish_blocks_def Let_def split_beta split: option.splits sum.splits)

lemma syncPeer_logInterval [simp]:
  "logInterval (snd (syncPeer e st)) = logInterval st"
  by (simp add: syncPeer_def Let_def split_beta split: option.splits sum.splits)

lemma add_leaves_logInterval [simp]:
  "logInterval (snd (add_leaves e to ls st)) = logInterval st"
  by (induction ls arbitrary: st) (simp_all add: Let_def split_beta split: option.splits sum.splits)

lemma reconcile_logInterval [simp]:
  "logInterval (snd (reconcile e to st)) = logInterval st"
  by (auto simp: reconcile_def Let_def split: sum.splits)

lemma peers_phase_logInterval [simp]:
  "logInterval (snd (peers_phase e to st)) = logInterval st"
  by (simp add: peers_phase_def split_beta split: sum.splits)

lemma blocks_and_peers_logInterval:
  "blocks_and_peers e to C n L R c chunks st = (r, st') \<Longrightarrow> logInterval st' = logInterval st"
  by (auto simp: blocks_and_peers_def Let_def split_beta split: sum.splits if_splits)

lemma connect_logInterval:
  "connect e to a st = (r, st') \<Longrightarrow>
     logInterval st' = (if isl r then logInterval st else Running)"
  by (auto simp: connect_def Let_def split: option.splits sum.splits if_splits)

lemma on_error_logInterval:
  "on_error err st = (r, st') \<Longrightarrow>
     isl r \<and> logInterval st' = (if logInterval st = Unset then Unset else Cleared)"
  by (auto simp: on_error_def Let_def)

section \<open>The outcomes of a sync\<close>

lemma sync_cases:
  assumes "sync e to chunkLen askedCautious nopeers st = Some (r, st')"
  obtains (early) err st1 where
      "connect e to askedCautious (st\<lparr>logInterval := Unset\<rparr>) = (Inl err, st1)"
      "(r, st') = on_error err st1"
  | (late) L R c st1 chunks err st2 where
      "connect e to askedCautious (st\<lparr>logInterval := Unset\<rparr>) = (Inr (L, R, c), st1)"
      "plan_chunks L R (chunkLen_or_default chunkLen) = Some chunks"
      "blocks_and_peers e to (chunkLen_or_default chunkLen) nopeers L R c chunks st1 = (Inl err, st2)"
      "(r, st') = on_error err st2"
  | (success) L R c st1 chunks where
      "connect e to askedCautious (st\<lparr>logInterval := Unset\<rparr>) = (Inr (L, R, c), st1)"
      "plan_chunks L R (chunkLen_or_default chunkLen) = Some chunks"
      "blocks_and_peers e to (chunkLen_or_default chunkLen) nopeers L R c chunks st1 = (Inr (), st')"
      "r = Inr ()"
proof (cases "connect e to askedCautious (st\<lparr>logInterval := Unset\<rparr>)")
  case (Pair r1 st1)
  show ?thesis
  proof (cases r1)
    case (Inl err)
    have "(r, st') = on_error err st1"
      using assms Pair Inl by (simp add: sync_def)
    then show ?thesis using early Pair Inl by blast
  next
    case (Inr x)
    obtain L R c where x: "x = (L, R, c)" by (cases x) auto
    have c: "connect e to askedCautious (st\<lparr>logInterval := Unset\<rparr>) = (Inr (L, R, c), st1)"
      using Pair Inr x by simp
    show ?thesis
    proof (cases "plan_chunks L R (chunkLen_or_default chunkLen)")
      case None
      then show ?thesis using assms c by (simp add: sync_def)
    next
      case (Some chunks)
      show ?thesis
      proof (cases "blocks_and_peers e to (chunkLen_or_default chunkLen) nopeers L R c chunks st1")
        case (Pair r2 st2)
        show ?thesis
        proof (cases r2)
          case (Inl err)
          have "(r, st') = on_error err st2"
            using assms c Some Pair Inl by (simp add: sync_def)
          then show ?thesis using late [OF c Some] Pair Inl by blast
        next
          case (Inr u)
          have "r = Inr () \<and> st' = st2"
            using assms c Some Pair Inr by (simp add: sync_def)
          then show ?thesis using success [OF c Some] Pair Inr by simp
        qed
      qed
    qed
  qed
qed

section \<open>Properties of the planner\<close>

lemma plan_loop_chunks_from:
  "1 \<le> C \<Longrightarrow> plan_loop i R C acc = Some (acc @ chunks_from i R C)"
proof (induction i R C arbitrary: acc rule: chunks_from.induct)
  case (1 i R C)
  show ?case
  proof (cases "i \<le> R")
    case True
    have "plan_loop i R C acc = plan_loop (i + C) R C (acc @ [(i, min (i + C - 1) R)])"
      using True by (subst plan_loop.simps) simp
    also have "\<dots> = Some ((acc @ [(i, min (i + C - 1) R)]) @ chunks_from (i + C) R C)"
      using "1.IH" [of "acc @ [(i, min (i + C - 1) R)]"] "1.prems" True by simp
    also have "\<dots> = Some (acc @ chunks_from i R C)"
      using True "1.prems" by (subst (2) chunks_from.simps) simp
    finally show ?thesis .
  next
    case False
    then show ?thesis
      by (subst plan_loop.simps, subst chunks_from.simps) simp
  qed
qed

lemma plan_chunks_total:
  "1 \<le> C \<Longrightarrow> plan_chunks L R C = Some (chunks_from (L + 1) R C)"
  using plan_loop_chunks_from [of C "L + 1" R "[]"] by (simp add: plan_chunks_def)

lemma chunks_from_empty: "R < i \<Longrightarrow> chunks_from i R C = []"
  by (subst chunks_from.simps) simp

lemma covered_chunks_from:
  "1 \<le> C \<Longrightarrow> covered (chunks_from i R C) = [i..R]"
proof (induction i R C rule: chunks_from.induct)
  case (1 i R C)
  show ?case
  proof (cases "i \<le> R")
    case True
    let ?b = "min (i + C - 1) R"
    have step: "chunks_from i R C = (i, ?b) # chunks_from (i + C) R C"
      using True "1.prems" by (subst chunks_from.simps) simp
    have rest: "covered (chunks_from (i + C) R C) = [i + C..R]"
      using "1.IH" "1.prems" True by simp
    show ?thesis
    proof (cases "i + C - 1 \<le> R")
      case True
      have "[i..R] = [i..i + C - 1] @ [i + C - 1 + 1..R]"
        using True "1.prems" by (intro upto_split2) auto
      then show ?thesis
        using step rest True by (simp add: covered_def)
    next
      case False
      then have "[i + C..R] = []" by simp
      then show ?thesis
        using step rest False by (simp add: covered_def)
    qed
  next
    case False
    then show ?thesis
      by (simp add: chunks_from_empty covered_def)
  qed
qed

lemma chunks_from_bounds:
  "(a, b) \<in> set (chunks_from i R C) \<Longrightarrow> a \<le> b \<and> i \<le> a \<and> b \<le> R"
proof (induction i R C rule: chunks_from.induct)
  case (1 i R C)
  show ?case
  proof (cases "1 \<le> C \<and> i \<le> R")
    case True
    then have step: "chunks_from i R C = (i, min (i + C - 1) R) # chunks_from (i + C) R C"
      by (subst chunks_from.simps) simp
    from "1.prems" step have
      "(a, b) = (i, min (i + C - 1) R) \<or> (a, b) \<in> set (chunks_from (i + C) R C)"
      by simp
    then show ?thesis
    proof
      assume "(a, b) = (i, min (i + C - 1) R)"
      then show ?thesis using True by auto
    next
      assume "(a, b) \<in> set (chunks_from (i + C) R C)"
      then have "a \<le> b \<and> i + C \<le> a \<and> b \<le> R" using "1.IH" True by simp
      then show ?thesis using True by auto
    qed
  next
    case False
    then have "chunks_from i R C = []" by (subst chunks_from.simps) simp
    then show ?thesis using "1.prems" by simp
  qed
qed

lemma chunk_count_step:
  assumes "1 \<le> C" "i \<le> R"
  shows "chunk_count (i - 1) R C = Suc (chunk_count (i + C - 1) R C)"
proof -
  have "R - (i - 1) + C - 1 = (R - (i + C - 1) + C - 1) + C" by simp
  moreover have "((R - (i + C - 1) + C - 1) + C) div C = (R - (i + C - 1) + C - 1) div C + 1"
    using assms(1) by (intro div_add_self2) simp
  ultimately have "(R - (i - 1) + C - 1) div C = (R - (i + C - 1) + C - 1) div C + 1"
    by (simp only:)
  moreover have "0 \<le> (R - (i + C - 1) + C - 1) div C"
    using assms by (simp add: pos_imp_zdiv_nonneg_iff)
  ultimately show ?thesis by (simp add: chunk_count_def)
qed

lemma chunk_count_zero: 
  assumes "1 \<le> C" "R < i" shows "chunk_count (i - 1) R C = 0"
proof -
  have "R - (i - 1) + C - 1 < C" using assms by simp
  then have "(R - (i - 1) + C - 1) div C \<le> 0"
  proof (cases "0 \<le> R - (i - 1) + C - 1")
    case True
    with \<open>R - (i - 1) + C - 1 < C\<close> show ?thesis by (simp only: div_pos_pos_trivial)
  next
    case False
    then show ?thesis using assms(1) by (intro div_nonpos_pos_le0) simp_all
  qed
  then show ?thesis by (simp add: chunk_count_def)
qed

lemma chunks_from_spec:
  "1 \<le> C \<Longrightarrow> chunks_from i R C = spec_chunks (i - 1) R C"
proof (induction i R C rule: chunks_from.induct)
  case (1 i R C)
  show ?case
  proof (cases "i \<le> R")
    case True
    have step: "chunks_from i R C = (i, min (i + C - 1) R) # chunks_from (i + C) R C"
      using True "1.prems" by (subst chunks_from.simps) simp
    have IH: "chunks_from (i + C) R C = spec_chunks (i + C - 1) R C"
      using "1.IH" "1.prems" True by simp
    have "spec_chunks (i - 1) R C =
          (i, min (i + C - 1) R) # map (\<lambda>k. (i - 1 + 1 + int (Suc k) * C, min (i - 1 + (int (Suc k) + 1) * C) R)) [0..<chunk_count (i + C - 1) R C]"
      unfolding spec_chunks_def chunk_count_step [OF "1.prems" True]
      by (simp add: upt_conv_Cons map_Suc_upt [symmetric] add.commute del: upt_Suc)
    also have "map (\<lambda>k. (i - 1 + 1 + int (Suc k) * C, min (i - 1 + (int (Suc k) + 1) * C) R)) [0..<chunk_count (i + C - 1) R C] = spec_chunks (i + C - 1) R C"
      unfolding spec_chunks_def by (simp add: algebra_simps)
    finally show ?thesis using step IH by simp
  next
    case False
    then show ?thesis
      using "1.prems" by (simp add: chunks_from_empty spec_chunks_def chunk_count_zero)
  qed
qed

lemma spec_chunks_bounds: "1 \<le> C \<Longrightarrow> (a, b) \<in> set (spec_chunks L R C) \<Longrightarrow> a \<le> b"
  using chunks_from_bounds [of a b "L + 1" R C] chunks_from_spec [of C "L + 1" R] by simp

lemma plan_loop_Some_width:
  assumes "plan_loop i R C acc = Some chunks"
  shows "i \<le> R \<longrightarrow> 1 \<le> C"
proof (rule plan_loop.raw_induct [where P = "\<lambda>i R C acc chunks. i \<le> R \<longrightarrow> 1 \<le> C", OF _ assms])
  fix f :: "int \<Rightarrow> int \<Rightarrow> int \<Rightarrow> (int \<times> int) list \<Rightarrow> (int \<times> int) list option"
    and i R C acc and chunks :: "(int \<times> int) list"
  assume IH: "\<And>i R C acc chunks. f i R C acc = Some chunks \<Longrightarrow> i \<le> R \<longrightarrow> 1 \<le> C"
    and eq: "(if i \<le> R then f (i + C) R C (acc @ [(i, min (i + C - 1) R)]) else Some acc) = Some chunks"
  show "i \<le> R \<longrightarrow> 1 \<le> C"
  proof
    assume le: "i \<le> R"
    with eq have "f (i + C) R C (acc @ [(i, min (i + C - 1) R)]) = Some chunks" by simp
    from IH [OF this] have "i + C \<le> R \<longrightarrow> 1 \<le> C" .
    with le show "1 \<le> C" by linarith
  qed
qed

lemma plan_chunks_covered:
  assumes "plan_chunks L R C = Some chunks"
  shows "covered chunks = [L + 1..R]"
proof (cases "1 \<le> C")
  case True
  then show ?thesis
    using assms plan_loop_chunks_from [OF True, of "L + 1" R "[]"] covered_chunks_from [OF True, of "L + 1" R]
    by (simp add: plan_chunks_def)
next
  case False
  with plan_loop_Some_width [of "L + 1" R C "[]" chunks] assms
  have gt: "R < L + 1" by (auto simp: plan_chunks_def)
  then have "chunks = []"
    using assms by (subst (asm) plan_chunks_def, subst (asm) plan_loop.simps) simp
  then show ?thesis using gt by (simp add: covered_def)
qed

lemma sync_returns:
  assumes "1 \<le> chunkLen_or_default chunkLen"
  shows "\<exists>r st'. sync e to chunkLen askedCautious nopeers st = Some (r, st')"
proof -
  obtain r1 st1 where c: "connect e to askedCautious (st\<lparr>logInterval := Unset\<rparr>) = (r1, st1)"
    by (cases "connect e to askedCautious (st\<lparr>logInterval := Unset\<rparr>)") auto
  show ?thesis
  proof (cases r1)
    case (Inl err)
    then show ?thesis using c by (simp add: sync_def)
  next
    case (Inr x)
    obtain L R ca where x: "x = (L, R, ca)" by (cases x) auto
    have plan: "plan_chunks L R (chunkLen_or_default chunkLen)
                  = Some (chunks_from (L + 1) R (chunkLen_or_default chunkLen))"
      using plan_chunks_total [OF assms] .
    obtain r2 st2 where b: "blocks_and_peers e to (chunkLen_or_default chunkLen) nopeers L R ca
        (chunks_from (L + 1) R (chunkLen_or_default chunkLen)) st1 = (r2, st2)"
      by (cases "blocks_and_peers e to (chunkLen_or_default chunkLen) nopeers L R ca
        (chunks_from (L + 1) R (chunkLen_or_default chunkLen)) st1") auto
    show ?thesis
      using c Inr x plan b by (cases r2; cases "on_error (projl r2) st2") (simp_all add: sync_def)
  qed
qed

section \<open>The scenarios succeed\<close>

lemma scenario_fields [simp]:
  "host (scenario l r) = ''remote''"
  "conf_currency (scenario l r) = ''beta''"
  "DOCUMENTS_VERSION (scenario l r) = 2"
  "FORK_ALLOWED (scenario l r) = True"
  "ALREADY_RECORDED (scenario l r) = ''Peer document is older than currently recorded''"
  "UNKNOWN_REFERENCE_BLOCK (scenario l r) = ''Unknown reference block of peer''"
  "hashf (scenario l r) = (\<lambda>s. ''0a1b'')"
  "rawer_getTransaction (scenario l r) = (\<lambda>t. case raw t of None \<Rightarrow> [] | Some r \<Rightarrow> r)"
  "dos2unix (scenario l r) = (\<lambda>s. s)"
  "Peer_getRaw (scenario l r) = (\<lambda>json. pubkey json)"
  "Peer_signature (scenario l r) = (\<lambda>json. signature json)"
  "vucoin (scenario l r) = None"
  "getCurrentBlockOrNull (scenario l r) = Inr l"
  "blockchain_current (scenario l r) = Inr r"
  "blockchain_blocks (scenario l r) =
     (\<lambda>count from. Inr (rev (map block_numbered [from..from + count - 1])))"
  "BlockchainService (scenario l r) = (\<lambda>calls. None)"
  "getBlock (scenario l r) = (\<lambda>calls n. Inr (Some (block_numbered n)))"
  "peering_get (scenario l r) = Inr (peer_of ''REMOTE'')"
  "checkPeerSignature (scenario l r) = (\<lambda>json. True)"
  "submitP (scenario l r) = (\<lambda>calls. None)"
  "merkleForPeers (scenario l r) = (\<lambda>calls. Inr \<lparr>root = ''R1'', leaves = [''a'']\<rparr>)"
  "peers_get (scenario l r) = Inr \<lparr>depth = 2, nodesCount = 5, leavesCount = 3, merkleRoot = ''R2''\<rparr>"
  "peers_get_leaves (scenario l r) = Inr [''a'', ''b'', ''c'']"
  "peers_get_leaf (scenario l r) = (\<lambda>leaf. Inr (peer_of leaf))"
  "clock (scenario l r) = (\<lambda>k. 1000 * int k)"
  by (simp_all add: scenario_def)

lemma scenario_honest: "honest_remote (scenario l r)"
  by (auto simp: honest_remote_def block_numbered_def multiset.map_comp comp_def)

lemma scenario_apply_cautious: "fst (apply_cautious (scenario l r) C L R bs st) = None"
  by (induction bs arbitrary: st)
     (simp_all add: applyGivenBlock_def call_ledger_def Let_def split_beta)

lemma scenario_apply_fast: "fst (apply_fast (scenario l r) C L R bs st) = None"
  by (simp add: apply_fast_def call_ledger_def Let_def split_beta)

lemma scenario_apply_chunks: "\<exists>x. fst (apply_chunks (scenario l r) c C L R chunks lb st) = Inr x"
proof (induction chunks arbitrary: lb st)
  case Nil
  then show ?case by simp
next
  case (Cons chunk chunks)
  obtain bs st1 where d: "download (scenario l r) R chunk st = (Inr bs, st1)"
    by (simp add: download_def Let_def)
  show ?case
    using d Cons.IH scenario_apply_cautious [of l r C L R "sort_key number bs" st1]
      scenario_apply_fast [of l r C L R "sort_key number bs" st1]
    by (cases c) (simp_all add: Let_def split_beta)
qed

lemma scenario_finish_blocks: "fst (finish_blocks (scenario l r) c lb st) = Inr ()"
  by (simp add: finish_blocks_def call_ledger_def Let_def split_beta split: option.splits)

lemma scenario_add_leaves: "fst (add_leaves (scenario l r) to ls st) = Inr ()"
  by (induction ls arbitrary: st) (simp_all add: call_submitP_def Let_def split_beta)

lemma scenario_peers_phase: "fst (peers_phase (scenario l r) to st) = Inr ()"
  by (simp add: peers_phase_def syncPeer_def reconcile_def call_submitP_def Let_def split_beta
      peer_of_def scenario_add_leaves)

lemma scenario_blocks_and_peers:
  "fst (blocks_and_peers (scenario l r) to C n L R c chunks st) = Inr ()"
proof -
  obtain x where "fst (apply_chunks (scenario l r) c C L R chunks None st) = Inr x"
    using scenario_apply_chunks by blast
  then show ?thesis
    by (simp add: blocks_and_peers_def split_beta scenario_finish_blocks scenario_peers_phase Let_def)
qed

lemma scenario_sync:
  assumes "2 \<le> version r" "1 \<le> chunkLen_or_default C"
  shows "\<exists>st'. sync (scenario l r) to C a n st = Some (Inr (), st')"
proof -
  let ?e = "scenario l r"
  obtain L R c st1 where con: "connect ?e to a (st\<lparr>logInterval := Unset\<rparr>) = (Inr (L, R, c), st1)"
    using assms(1) by (simp add: connect_def Let_def)
  obtain chunks where plan: "plan_chunks L R (chunkLen_or_default C) = Some chunks"
    using plan_chunks_total [OF assms(2)] by blast
  obtain st2 where "blocks_and_peers ?e to (chunkLen_or_default C) n L R c chunks st1 = (Inr (), st2)"
    using scenario_blocks_and_peers [of l r to "chunkLen_or_default C" n L R c chunks st1]
    by (cases "blocks_and_peers ?e to (chunkLen_or_default C) n L R c chunks st1") auto
  then show ?thesis using con plan by (simp add: sync_def)
qed

lemma failing_download_fields [simp]:
  "vucoin (failing_download e) = vucoin e"
  "getCurrentBlockOrNull (failing_download e) = getCurrentBlockOrNull e"
  "blockchain_current (failing_download e) = blockchain_current e"
  "host (failing_download e) = host e"
  "blockchain_blocks (failing_download e) = (\<lambda>count from. Inl (Str ''ETIMEDOUT''))"
  by (simp_all add: failing_download_def)

lemma failing_download_sync:
  "\<exists>st1 st'. connect (failing_download (scenario None (block_numbered 2))) To_undefined None
              (Synchroniser e\<lparr>logInterval := Unset\<rparr>) = (Inr (- 1, 2, False), st1) \<and>
     sync (failing_download (scenario None (block_numbered 2))) To_undefined None None False
       (Synchroniser e) = Some (Inl (Str ''ETIMEDOUT''), st')"
proof -
  let ?e = "failing_download (scenario None (block_numbered 2))"
  obtain st1 where con: "connect ?e To_undefined None (Synchroniser e\<lparr>logInterval := Unset\<rparr>)
      = (Inr (- 1, 2, False), st1)"
    by (simp add: connect_def Let_def block_numbered_def remote_target_def use_cautious_def)
  have plan: "plan_chunks (- 1) 2 (chunkLen_or_default None) = Some [(0, 2)]"
    using plan_chunks_total [of 500 "- 1" 2]
    by (simp add: chunkLen_or_default_def CONST_BLOCKS_CHUNK_def chunks_from.simps)
  obtain st2 where "blocks_and_peers ?e To_undefined (chunkLen_or_default None) False (- 1) 2 False
      [(0, 2)] st1 = (Inl (Str ''ETIMEDOUT''), st2)"
    by (simp add: blocks_and_peers_def download_def Let_def)
  then show ?thesis using con plan by (simp add: sync_def on_error_def Let_def)
qed

lemma connect_old_version:
  assumes "vucoin e = None" "getCurrentBlockOrNull e = Inr lCurrent"
    "blockchain_current e = Inr rCurrent" "version rCurrent < 2"
  shows "connect e to asked st =
     (Inl (Err (''Could not sync with remote host. UCP version is ''
                 @ show_int (version rCurrent) @ '' (Must be >= 2)'')),
      (writeStatus (''Connecting to '' @ host e @ ''...'') (st\<lparr>rpc := rpc st @ [Vucoin]\<rparr>))
        \<lparr>rpc := rpc st @ [Vucoin, Blockchain_current]\<rparr>)"
  using assms by (simp add: connect_def Let_def)

section \<open>The blocks delivered to the ledger\<close>

lemma delivered_append [simp]: "delivered (xs @ ys) = delivered xs @ delivered ys"
  by (simp add: delivered_def)

lemma delivered_single [simp]: "delivered [c] = submitted c"
  by (simp add: delivered_def)

lemma delivered_Nil [simp]: "delivered [] = []"
  by (simp add: delivered_def)

lemma delivered_Cons [simp]: "delivered (c # cs) = submitted c @ delivered cs"
  by (simp add: delivered_def)

lemma apply_cautious_delivered:
  "apply_cautious e C L R bs st = (None, st') \<Longrightarrow>
     \<exists>calls. ledger st' = ledger st @ calls \<and> map number (delivered calls) = map number bs"
proof (induction bs arbitrary: st)
  case Nil
  then show ?case by simp
next
  case (Cons b bs)
  obtain r1 st1 where a: "applyGivenBlock e True R b st = (r1, st1)"
    by (cases "applyGivenBlock e True R b st") auto
  with Cons.prems have r1: "r1 = None"
    and rest: "apply_cautious e C L R bs (incrementBlocks e C L R 1 st1) = (None, st')"
    by (auto split: option.splits)
  let ?c = "SubmitBlock (b\<lparr>transactions := map (rawify e) (transactions b)\<rparr>) True (FORK_ALLOWED e)"
  have l1: "ledger st1 = ledger st @ [?c]"
    using applyGivenBlock_frame(1) [of e True R b st] a by simp
  from Cons.IH [OF rest] obtain calls where
    "ledger st' = ledger (incrementBlocks e C L R 1 st1) @ calls"
    "map number (delivered calls) = map number bs" by blast
  then have "ledger st' = ledger st @ (?c # calls) \<and>
             map number (delivered (?c # calls)) = map number (b # bs)"
    using l1 by simp
  then show ?case by blast
qed

lemma apply_fast_delivered:
  "apply_fast e C L R bs st = (None, st') \<Longrightarrow>
     ledger st' = ledger st @ [SaveBlocksInMainBranch bs R]"
proof -
  assume a: "apply_fast e C L R bs st = (None, st')"
  obtain r1 st1 where c: "call_ledger e (SaveBlocksInMainBranch bs R) st = (r1, st1)"
    by (cases "call_ledger e (SaveBlocksInMainBranch bs R) st") auto
  with a have "st' = incrementBlocks e C L R (int (length bs)) st1"
    by (auto simp: apply_fast_def split: option.splits)
  moreover have "ledger st1 = ledger st @ [SaveBlocksInMainBranch bs R]"
    using call_ledger_frame(1) [of e "SaveBlocksInMainBranch bs R" st] c by simp
  ultimately show ?thesis by simp
qed

lemma download_ledger [simp]: "ledger (snd (download e R c st)) = ledger st"
  by (simp add: download_def Let_def split: sum.splits)

lemma download_Inr:
  "download e R chunk st = (Inr bs, st') \<Longrightarrow>
     blockchain_blocks e (snd chunk - fst chunk + 1) (fst chunk) = Inr bs"
  by (auto simp: download_def Let_def split: sum.splits)

lemma honest_sorted_numbers:
  assumes "honest_remote e" "blockchain_blocks e (b - a + 1) a = Inr bs"
  shows "map number (sort_key number bs) = [a..b]"
proof -
  have m: "mset (map number bs) = mset [a..b]"
    using assms by (auto simp: honest_remote_def)
  have "sort (map number bs) = map number (sort_key number bs)"
    by (intro properties_for_sort) simp_all
  moreover have "sort (map number bs) = [a..b]"
    using m by (intro properties_for_sort) simp_all
  ultimately show ?thesis by simp
qed

lemma apply_chunks_delivered:
  assumes "honest_remote e"
  shows "apply_chunks e c C L R chunks lb st = (Inr x, st') \<Longrightarrow>
     \<exists>calls. ledger st' = ledger st @ calls \<and> map number (delivered calls) = covered chunks"
proof (induction chunks arbitrary: lb st)
  case Nil
  then show ?case by (simp add: covered_def)
next
  case (Cons chunk chunks)
  obtain a b where chunk: "chunk = (a, b)" by (cases chunk) auto
  obtain r1 st1 where d: "download e R chunk st = (r1, st1)"
    by (cases "download e R chunk st") auto
  with Cons.prems obtain downloaded where r1: "r1 = Inr downloaded"
    by (cases r1) auto
  have l1: "ledger st1 = ledger st"
    using download_ledger [of e R chunk st] d by simp
  have nums: "map number (sort_key number downloaded) = [a..b]"
    using honest_sorted_numbers [OF assms, of b a downloaded] download_Inr [of e R chunk st downloaded st1]
      d r1 chunk by simp
  let ?bs = "sort_key number downloaded"
  let ?ap = "if c then apply_cautious e C L R ?bs st1 else apply_fast e C L R ?bs st1"
  obtain r2 st2 where ap: "?ap = (r2, st2)" by (cases ?ap) auto
  with Cons.prems d r1 have r2: "r2 = None"
    and rest: "apply_chunks e c C L R chunks (Some downloaded) st2 = (Inr x, st')"
    by (auto simp: Let_def split: option.splits)
  have "\<exists>calls. ledger st2 = ledger st1 @ calls \<and> map number (delivered calls) = map number ?bs"
  proof (cases c)
    case True
    then show ?thesis using ap r2 apply_cautious_delivered [of e C L R ?bs st1 st2] by simp
  next
    case False
    then have "ledger st2 = ledger st1 @ [SaveBlocksInMainBranch ?bs R]"
      using ap r2 apply_fast_delivered [of e C L R ?bs st1 st2] by simp
    moreover have "map number (delivered [SaveBlocksInMainBranch ?bs R]) = map number ?bs"
      by simp
    ultimately show ?thesis by blast
  qed
  then obtain calls1 where c1: "ledger st2 = ledger st @ calls1"
    "map number (delivered calls1) = [a..b]" using l1 nums by auto
  from Cons.IH [OF rest] obtain calls2 where c2: "ledger st' = ledger st2 @ calls2"
    "map number (delivered calls2) = covered chunks" by blast
  have "ledger st' = ledger st @ (calls1 @ calls2) \<and>
        map number (delivered (calls1 @ calls2)) = covered (chunk # chunks)"
    using c1 c2 chunk by (simp add: covered_def)
  then show ?case by blast
qed

lemma finish_blocks_delivered:
  "\<exists>calls. ledger (snd (finish_blocks e c lb st)) = ledger st @ calls \<and> delivered calls = []"
  by (simp add: finish_blocks_def Let_def split_beta split: option.splits sum.splits)

lemma syncPeer_ledger [simp]: "ledger (snd (syncPeer e st)) = ledger st"
  by (simp add: syncPeer_def Let_def split_beta split: option.splits sum.splits)

lemma add_leaves_ledger [simp]: "ledger (snd (add_leaves e to ls st)) = ledger st"
  by (induction ls arbitrary: st) (simp_all add: Let_def split_beta split: option.splits sum.splits)

lemma reconcile_ledger [simp]: "ledger (snd (reconcile e to st)) = ledger st"
  by (simp add: reconcile_def Let_def split: sum.splits)

lemma peers_phase_ledger [simp]: "ledger (snd (peers_phase e to st)) = ledger st"
  by (simp add: peers_phase_def split_beta split: sum.splits)

lemma connect_ledger [simp]: "ledger (snd (connect e to a st)) = ledger st"
  by (simp add: connect_def Let_def split: option.splits sum.splits)

lemma connect_Inr:
  assumes "connect e to a st = (Inr (L, R, c), st1)"
  shows "L = local_height e \<and> c = use_cautious a L \<and>
         (\<exists>rCurrent. blockchain_current e = Inr rCurrent \<and> 2 \<le> version rCurrent \<and>
            R = remote_target (number rCurrent) to)"
  using assms
  by (auto simp: connect_def Let_def local_height_def split: option.splits sum.splits if_splits)

lemma blocks_and_peers_delivered:
  assumes "honest_remote e"
    and "blocks_and_peers e to C n L R c chunks st = (Inr (), st')"
  shows "\<exists>calls. ledger st' = ledger st @ calls \<and> map number (delivered calls) = covered chunks"
proof -
  obtain r1 st1 where a: "apply_chunks e c C L R chunks None st = (r1, st1)"
    by (cases "apply_chunks e c C L R chunks None st") auto
  with assms(2) obtain lb where r1: "r1 = Inr lb"
    by (cases r1) (auto simp: blocks_and_peers_def)
  obtain r2 st2 where f: "finish_blocks e c lb st1 = (r2, st2)"
    by (cases "finish_blocks e c lb st1") auto
  with assms(2) a r1 have r2: "r2 = Inr ()"
    by (cases r2) (auto simp: blocks_and_peers_def)
  obtain calls2 where l2: "ledger st2 = ledger st1 @ calls2" "delivered calls2 = []"
    using finish_blocks_delivered [of e c lb st1] f by auto
  let ?pp = "if \<not> n then peers_phase e to st2 else (Inr (), st2)"
  obtain r3 st3 where p: "?pp = (r3, st3)" by (cases ?pp) auto
  have l3: "ledger st3 = ledger st2"
    using p peers_phase_ledger [of e to st2] by (cases n) auto
  have l4: "ledger st' = ledger st3"
    using assms(2) a r1 f r2 p by (cases r3) (auto simp: blocks_and_peers_def Let_def)
  obtain calls1 where l1: "ledger st1 = ledger st @ calls1"
    "map number (delivered calls1) = covered chunks"
    using apply_chunks_delivered [OF assms(1) a [unfolded r1]] by blast
  have "ledger st' = ledger st @ (calls1 @ calls2) \<and>
        map number (delivered (calls1 @ calls2)) = covered chunks"
    using l1 l2 l3 l4 by simp
  then show ?thesis by blast
qed

section \<open>Peers\<close>



lemma same_root_fields [simp]:
  "merkleForPeers (same_root e) = merkleForPeers e"
  "peers_get (same_root e) = Inr \<lparr>depth = 2, nodesCount = 5, leavesCount = 3, merkleRoot = ''R1''\<rparr>"
  by (simp_all add: same_root_def)

lemma syncPeer_outcome:
  assumes "peering_get e = Inr json" "Peer_getRaw e json \<noteq> []"
    "dos2unix e (Peer_signature e json) \<noteq> []"
  shows "fst (syncPeer e st) =
           (case submitP e (peering st @ [SubmitP json None None]) of
              None \<Rightarrow> Inr ()
            | Some err \<Rightarrow>
                if loose_neq err (ALREADY_RECORDED e) \<and> loose_neq err (UNKNOWN_REFERENCE_BLOCK e)
                then Inl err else Inr ())"
    and "peering (snd (syncPeer e st)) = peering st @ [SubmitP json None None]"
    and "statuses (snd (syncPeer e st)) =
           statuses st @ (if checkPeerSignature e json then []
                          else [''Wrong signature for peer #'' @ pubkey json])"
  using assms
  by (simp_all add: syncPeer_def Let_def call_submitP_def writeStatus_def
      LoggerWatcher_writeStatus_def split: option.splits)

lemma blocks_and_peers_Inr_peers:
  assumes "blocks_and_peers e to C False L R c chunks st = (Inr (), st')"
  shows "\<exists>st2. fst (syncPeer e (writeStatus ''Peers...'' st2)) = Inr ()"
proof -
  obtain r1 st1 where a: "apply_chunks e c C L R chunks None st = (r1, st1)"
    by (cases "apply_chunks e c C L R chunks None st") auto
  with assms obtain lb where r1: "r1 = Inr lb"
    by (cases r1) (auto simp: blocks_and_peers_def)
  obtain r2 st2 where f: "finish_blocks e c lb st1 = (r2, st2)"
    by (cases "finish_blocks e c lb st1") auto
  with assms a r1 have r2: "r2 = Inr ()"
    by (cases r2) (auto simp: blocks_and_peers_def)
  obtain r3 st3 where p: "peers_phase e to st2 = (r3, st3)"
    by (cases "peers_phase e to st2") auto
  with assms a r1 f r2 have r3: "r3 = Inr ()"
    by (cases r3) (auto simp: blocks_and_peers_def)
  obtain r4 st4 where s: "syncPeer e (writeStatus ''Peers...'' st2) = (r4, st4)"
    by (cases "syncPeer e (writeStatus ''Peers...'' st2)") auto
  with p r3 have "r4 = Inr ()"
    by (cases r4) (auto simp: peers_phase_def)
  with s have "fst (syncPeer e (writeStatus ''Peers...'' st2)) = Inr ()" by simp
  then show ?thesis by blast
qed

lemma rejecting_peers_fields [simp]:
  "peering_get (rejecting_peers err e) = peering_get e"
  "Peer_getRaw (rejecting_peers err e) = Peer_getRaw e"
  "Peer_signature (rejecting_peers err e) = Peer_signature e"
  "dos2unix (rejecting_peers err e) = dos2unix e"
  "ALREADY_RECORDED (rejecting_peers err e) = ALREADY_RECORDED e"
  "UNKNOWN_REFERENCE_BLOCK (rejecting_peers err e) = UNKNOWN_REFERENCE_BLOCK e"
  "checkPeerSignature (rejecting_peers err e) = (\<lambda>json. False)"
  "submitP (rejecting_peers err e) = (\<lambda>calls. Some err)"
  by (simp_all add: rejecting_peers_def)

lemma apply_cautious_peering [simp]:
  "peering (snd (apply_cautious e C L R bs st)) = peering st"
  by (induction bs arbitrary: st) (simp_all add: split_beta split: option.splits)

lemma apply_fast_peering [simp]:
  "peering (snd (apply_fast e C L R bs st)) = peering st"
  by (simp add: apply_fast_def split_beta split: option.splits)

lemma download_peering [simp]:
  "peering (snd (download e R c st)) = peering st"
  by (simp add: download_def Let_def split: sum.splits)

lemma apply_chunks_peering [simp]:
  "peering (snd (apply_chunks e c C L R chunks lb st)) = peering st"
proof (induction chunks arbitrary: lb st)
  case Nil
  then show ?case by simp
next
  case (Cons chunk chunks)
  show ?case
    using Cons.IH
    by (cases c) (simp_all add: Let_def split_beta split: sum.splits option.splits)
qed

lemma finish_blocks_peering [simp]:
  "peering (snd (finish_blocks e c lb st)) = peering st"
  by (simp add: finish_blocks_def Let_def split_beta split: option.splits sum.splits)








section \<open>Transactions\<close>

lemma join_nonempty: "xs \<noteq> [] \<Longrightarrow> join ''\<newline>'' xs @ ''\<newline>'' = each_on_own_line xs"
  by (induction "''\<newline>''" xs rule: join.induct) (simp_all add: each_on_own_line_def)

lemma join_header:
  "join '':'' [a, b, c, d, f, g, h] = a @ '':'' @ b @ '':'' @ c @ '':'' @ d @ '':'' @ f @ '':'' @ g @ '':'' @ h"
  by simp

lemma tx_raw_spec:
  assumes "signatories t \<noteq> []" "inputs t \<noteq> []" "outputs t \<noteq> []" "signatures t \<noteq> []"
  shows "tx_raw e t = spec_canonical_tx (DOCUMENTS_VERSION e) t"
proof -
  have "tx_raw e t =
     join '':'' [''TX'', show_int (DOCUMENTS_VERSION e), show_nat (length (signatories t)),
                 show_nat (length (inputs t)), show_nat (length (outputs t)),
                 (if has_comment t then ''1'' else ''0''),
                 show_int (case locktime t of None \<Rightarrow> 0 | Some n \<Rightarrow> n)] @ ''\<newline>''
     @ (join ''\<newline>'' (signatories t) @ ''\<newline>'')
     @ (join ''\<newline>'' (inputs t) @ ''\<newline>'')
     @ (join ''\<newline>'' (outputs t) @ ''\<newline>'')
     @ comment_line t
     @ (join ''\<newline>'' (signatures t) @ ''\<newline>'')"
    by (simp add: tx_raw_def)
  then show ?thesis
    unfolding join_nonempty [OF assms(1)] join_nonempty [OF assms(2)] join_nonempty [OF assms(3)]
      join_nonempty [OF assms(4)] join_header
    by (simp add: spec_canonical_tx_def)
qed

lemma rawify_fields:
  "raw (rawify e t) = Some (tx_raw e t)"
  "tx_version (rawify e t) = Some (DOCUMENTS_VERSION e)"
  "tx_currency (rawify e t) = Some (conf_currency e)"
  "issuers (rawify e t) = Some (signatories t)"
  "hash (rawify e t) =
     Some (toUpperCase (hashf e (rawer_getTransaction e ((rawify e t)\<lparr>hash := hash t\<rparr>))))"
  "signatories (rawify e t) = signatories t"
  "inputs (rawify e t) = inputs t"
  "outputs (rawify e t) = outputs t"
  "comment (rawify e t) = comment t"
  "locktime (rawify e t) = locktime t"
  "signatures (rawify e t) = signatures t"
  by (simp_all add: rawify_def Let_def)

lemma toUpperCase_0a1b: "toUpperCase ''0a1b'' = ''0A1B''"
  by (simp add: toUpperCase_def)

section \<open>Arithmetic of percentages and rounding\<close>

lemma floor_pct_eval:
  "floor_pct a b = (if b = 0 then (if a = 0 then NaN else if 0 < a then PInf else NInf)
      else Fin (a * 100 div b))"
proof -
  have "\<lfloor>(of_int a / of_int b :: rat) * 100\<rfloor> = a * 100 div b"
    using floor_divide_of_int_eq [of "a * 100" b, where ?'a = rat] by simp
  then show ?thesis by (simp add: floor_pct_def)
qed

lemma js_round_eval: "js_round (max (of_int a / 1000) 1) = max ((a + 500) div 1000) 1"
proof -
  have r: "js_round (of_int a / 1000) = (a + 500) div 1000"
  proof -
    have "(of_int a / 1000 + 1 / 2 :: rat) = of_int (a + 500) / of_int 1000" by simp
    then show ?thesis
      unfolding js_round_def using floor_divide_of_int_eq [of "a + 500" 1000, where ?'a = rat]
      by (simp only:)
  qed
  have one: "js_round 1 = 1" by (simp add: js_round_def floor_eq_iff)
  show ?thesis
  proof (cases "a \<le> 1000")
    case True
    then have "(of_int a / 1000 :: rat) \<le> 1" by simp
    then have m: "max (of_int a / 1000) (1 :: rat) = 1" by (rule max_absorb2)
    from True have "(a + 500) div 1000 \<le> 1" by simp
    then have "max ((a + 500) div 1000) 1 = 1" by (rule max_absorb2)
    with m one show ?thesis by (simp only:)
  next
    case False
    then have "(1 :: rat) \<le> of_int a / 1000" by simp
    then have m: "max (of_int a / 1000) (1 :: rat) = of_int a / 1000" by (rule max_absorb1)
    from False have "1 \<le> (a + 500) div 1000" by simp
    then have "max ((a + 500) div 1000) 1 = (a + 500) div 1000" by (rule max_absorb1)
    with m r show ?thesis by (simp only:)
  qed
qed

section \<open>The speed estimator\<close>

text \<open>After every call of \<^verbatim>\<open>incrementBlocks\<close> the window has one more timestamp, the oldest
  one dropped when it had eight, and the speed is the chunk width times the number of
  intervals of the window over the rounded span of the window in seconds, at least one.\<close>

lemma duration_of_snoc:
  "duration_of (ts @ [x]) = (if ts = [] then 0 else duration_of ts + (x - last ts))"
proof -
  let ?n = "length ts"
  let ?f = "\<lambda>us sum index. if index = 0 then sum else sum + (us ! index - us ! (index - 1))"
  have same: "foldl (?f (ts @ [x])) 0 [0..<?n] = foldl (?f ts) 0 [0..<?n]"
    by (rule foldl_cong) (auto simp: nth_append)
  have "duration_of (ts @ [x]) = ?f (ts @ [x]) (foldl (?f (ts @ [x])) 0 [0..<?n]) ?n"
    by (simp add: duration_of_def)
  also have "\<dots> = ?f (ts @ [x]) (duration_of ts) ?n"
    using same by (simp add: duration_of_def)
  also have "\<dots> = (if ts = [] then 0 else duration_of ts + (x - last ts))"
    by (cases "ts = []") (simp_all add: duration_of_def nth_append last_conv_nth)
  finally show ?thesis .
qed

lemma duration_of_span: "ts \<noteq> [] \<Longrightarrow> duration_of ts = last ts - hd ts"
proof (induction ts rule: rev_induct)
  case Nil
  then show ?case by simp
next
  case (snoc x ts)
  show ?case
  proof (cases "ts = []")
    case True
    then show ?thesis using duration_of_snoc [of "[]" x] by simp
  next
    case False
    then show ?thesis using snoc.IH by (simp add: duration_of_snoc)
  qed
qed

lemma js_round_div: "js_round (of_int a / 1000) = (a + 500) div 1000"
proof -
  have "(of_int a / 1000 + 1 / 2 :: rat) = of_int (a + 500) / of_int 1000" by simp
  then show ?thesis
    unfolding js_round_def using floor_divide_of_int_eq [of "a + 500" 1000, where ?'a = rat]
    by (simp only:)
qed

lemma incrementBlocks_window:
  assumes "length (times_list st) \<le> COMPUTE_SPEED_ON_COUNT_CHUNKS"
  shows "times_list (incrementBlocks e C L R n st) =
           (if length (times_list st) = COMPUTE_SPEED_ON_COUNT_CHUNKS
            then drop 1 (times_list st) else times_list st) @ [clock e (dates st)]"
    and "length (times_list (incrementBlocks e C L R n st)) \<le> COMPUTE_SPEED_ON_COUNT_CHUNKS"
    and "speed (incrementBlocks e C L R n st) =
           of_int (C * (int (length (times_list (incrementBlocks e C L R n st))) - 1))
             / of_int (max 1 (js_round (of_int (last (times_list (incrementBlocks e C L R n st))
                                                 - hd (times_list (incrementBlocks e C L R n st)))
                                         / 1000)))"
proof -
  let ?ts = "(if length (times_list st) = COMPUTE_SPEED_ON_COUNT_CHUNKS
              then drop 1 (times_list st) else times_list st) @ [clock e (dates st)]"
  have upd: "times_list (update_applied p s) = times_list s" "speed (update_applied p s) = speed s"
    for p s
    by (simp_all add: update_applied_def appliedPercent_def LoggerWatcher_appliedPercent_def Let_def)
  show ts: "times_list (incrementBlocks e C L R n st) = ?ts"
    by (simp add: incrementBlocks_def Let_def new_Date_def split_beta upd)
  show "length (times_list (incrementBlocks e C L R n st)) \<le> COMPUTE_SPEED_ON_COUNT_CHUNKS"
    unfolding ts using assms by (simp add: COMPUTE_SPEED_ON_COUNT_CHUNKS_def)
  have sp: "speed (incrementBlocks e C L R n st) =
      of_int (C * (int (length ?ts) - 1)) / of_int (js_round (max (of_int (duration_of ?ts) / 1000) 1))"
    by (simp add: incrementBlocks_def Let_def new_Date_def split_beta upd)
  have d: "duration_of ?ts = last ?ts - hd ?ts"
    by (rule duration_of_span) simp
  have "js_round (max (of_int (last ?ts - hd ?ts) / 1000) 1)
          = max ((last ?ts - hd ?ts + 500) div 1000) 1"
    by (rule js_round_eval)
  also have "\<dots> = max 1 ((last ?ts - hd ?ts + 500) div 1000)"
    by (rule max.commute)
  also have "\<dots> = max 1 (js_round (of_int (last ?ts - hd ?ts) / 1000))"
    by (simp only: js_round_div)
  finally have "js_round (max (of_int (duration_of ?ts) / 1000) 1)
          = max 1 (js_round (of_int (last ?ts - hd ?ts) / 1000))"
    unfolding d .
  with sp show "speed (incrementBlocks e C L R n st) =
           of_int (C * (int (length (times_list (incrementBlocks e C L R n st))) - 1))
             / of_int (max 1 (js_round (of_int (last (times_list (incrementBlocks e C L R n st))
                                                 - hd (times_list (incrementBlocks e C L R n st)))
                                         / 1000)))"
    unfolding ts by (simp only:)
qed

section \<open>A cautious sync, step by step\<close>

text \<open>The scenario with local current block 0 and remote current block 2, default
  arguments but for \<open>nopeers\<close>: one chunk \<open>[1, 2]\<close>, applied in cautious mode.\<close>

lemma plan_cautious: "plan_chunks 0 2 500 = Some [(1, 2)]"
  using plan_chunks_total [of 500 0 2] by (simp add: chunks_from.simps)

lemma upto_1_2: "[1..2] = [1, 2::int]"
  by (simp add: upto_rec1)

lemmas sync_ops =
  connect_def Let_def block_numbered_def remote_target_def use_cautious_def
  blocks_and_peers_def download_def downloadPercent_def LoggerWatcher_downloadPercent_def
  appliedPercent_def LoggerWatcher_appliedPercent_def update_applied_def incrementBlocks_def
  applyGivenBlock_def call_ledger_def new_Date_def writeStatus_def LoggerWatcher_writeStatus_def
  watcher_end_def finish_blocks_def floor_pct_eval js_neq_def Synchroniser_def
  chunkLen_or_default_def CONST_BLOCKS_CHUNK_def COMPUTE_SPEED_ON_COUNT_CHUNKS_def
  duration_of_def js_round_eval plan_cautious upto_1_2

lemma cautious_sync_run:
  "map_option (\<lambda>(r, st). (r, pushed st, rpc st, map number (delivered (ledger st)),
                           times_list st, speed st, blocksApplied st))
     (sync (scenario (Some (block_numbered 0)) (block_numbered 2)) To_undefined None None True
        (Synchroniser (scenario (Some (block_numbered 0)) (block_numbered 2)))) =
   Some (Inr (),
         [Download (Fin 50), Download (Fin 100), Applied (Fin 50), Applied (Fin 100),
          Applied (Fin 200), Sync_true],
         [Vucoin, Blockchain_current, Blockchain_blocks 2 1], [1, 2],
         [0, 2000, 5000], 200, 4)"
  unfolding sync_def
  apply (simp add: sync_ops del: apply_chunks.simps apply_cautious.simps)
  apply (subst apply_chunks.simps)
  apply (simp add: sync_ops del: apply_chunks.simps apply_cautious.simps)
  apply (subst apply_cautious.simps)
  apply (simp add: sync_ops del: apply_chunks.simps apply_cautious.simps)
  apply (subst apply_cautious.simps)
  apply (simp add: sync_ops del: apply_chunks.simps apply_cautious.simps)
  apply (subst apply_cautious.simps)
  apply (simp add: sync_ops del: apply_chunks.simps apply_cautious.simps)
  apply (subst apply_chunks.simps)
  apply (simp add: sync_ops del: apply_chunks.simps apply_cautious.simps)
  done

section \<open>The numbers of the blocks delivered by a successful sync\<close>

lemma remote_target_cases:
  "remote_target rnumber to =
     (case to of To_num n \<Rightarrow> if n = 0 then rnumber else min rnumber n
      | To_undefined \<Rightarrow> rnumber | To_null \<Rightarrow> rnumber)"
  by (simp add: remote_target_def split: to_arg.splits)

lemma sync_delivered_numbers:
  assumes "sync e to chunkLen askedCautious nopeers st = Some (Inr (), st')"
    and "honest_remote e"
    and "blockchain_current e = Inr rCurrent"
  shows "\<exists>new. delivered (ledger st') = delivered (ledger st) @ new \<and>
           map number new = [local_height e + 1..remote_target (number rCurrent) to]"
  using assms(1)
proof (cases rule: sync_cases)
  case (early err st1)
  then show ?thesis by (simp add: on_error_def Let_def)
next
  case (late L R c st1 chunks err st2)
  then show ?thesis by (simp add: on_error_def Let_def)
next
  case (success L R c st1 chunks)
  have LR: "L = local_height e" "R = remote_target (number rCurrent) to"
    using connect_Inr [OF success(1)] assms(3) by auto
  have l1: "ledger st1 = ledger st"
    using connect_ledger [of e to askedCautious "st\<lparr>logInterval := Unset\<rparr>"] success(1) by simp
  obtain calls where calls: "ledger st' = ledger st1 @ calls"
    "map number (delivered calls) = covered chunks"
    using blocks_and_peers_delivered [OF assms(2) success(3)] by blast
  have nums: "map number (delivered calls) = [L + 1..R]"
    using calls(2) plan_chunks_covered [OF success(2)] by simp
  have "delivered (ledger st') = delivered (ledger st) @ delivered calls"
    using calls(1) l1 by simp
  then show ?thesis using nums LR by auto
qed

text \<open>
  C1. When a sync succeeds against a remote node whose \<^verbatim>\<open>blocks(count, from)\<close> returns the
  \<open>count\<close> blocks numbered from \<open>from\<close> in some order, the blocks delivered to the ledger
  during the sync (one by one through \<^verbatim>\<open>submitBlock\<close>, or as the arrays given to
  \<^verbatim>\<open>saveBlocksInMainBranch\<close>) have the numbers \<open>L + 1, \<dots>, R\<close> in this order, strictly
  ascending and without duplicates, where \<open>L\<close> is the local height (\<open>-1\<close> without a local
  current block) and \<open>R\<close> is the remote current number when \<open>to\<close> is \<^verbatim>\<open>undefined\<close>,
  \<^verbatim>\<open>null\<close> or \<open>0\<close>, and the minimum of the remote current number and \<open>to\<close> for any
  other number (\<^verbatim>\<open>Math.min(rCurrent.number, to || rCurrent.number)\<close>).

  With \<open>R\<close> the minimum of the remote current number and \<open>to\<close> for every given \<open>to\<close>, the
  statement fails at \<open>to = 0\<close>: against a remote node at block 2, with no local block,
  that minimum is 0 and the range is block 0 alone, and the sync delivers blocks 0, 1
  and 2.
\<close>

theorem sync_delivers_missing_blocks:
  assumes "sync e to chunkLen askedCautious nopeers st = Some (Inr (), st')"
    and "honest_remote e"
    and "blockchain_current e = Inr rCurrent"
  shows "\<exists>new. delivered (ledger st') = delivered (ledger st) @ new \<and>
           map number new =
             [local_height e + 1..
              (case to of
                 To_num n \<Rightarrow> if n = 0 then number rCurrent else min (number rCurrent) n
               | To_undefined \<Rightarrow> number rCurrent
               | To_null \<Rightarrow> number rCurrent)] \<and>
           sorted_wrt (<) (map number new) \<and> distinct (map number new)"
proof -
  obtain new where n: "delivered (ledger st') = delivered (ledger st) @ new"
    "map number new = [local_height e + 1..remote_target (number rCurrent) to]"
    using sync_delivered_numbers [OF assms] by blast
  have "sorted_wrt (<) (map number new)" "distinct (map number new)"
    unfolding n(2) by (simp_all add: sorted_wrt_upto)
  then show ?thesis using n unfolding remote_target_cases by blast
qed

theorem sync_delivers_missing_blocks_witness:
  "(\<exists>st'. sync (scenario None (block_numbered 2)) To_undefined (Some 2) None True
            (Synchroniser (scenario None (block_numbered 2))) = Some (Inr (), st') \<and>
          map number (delivered (ledger st')) = [0, 1, 2]) \<and>
   (\<exists>st'. sync (scenario None (block_numbered 2)) (To_num 1) (Some 2) None True
            (Synchroniser (scenario None (block_numbered 2))) = Some (Inr (), st') \<and>
          map number (delivered (ledger st')) = [0, 1]) \<and>
   (\<exists>st'. sync (scenario (Some (block_numbered 0)) (block_numbered 2)) (To_num 7) (Some 2) None True
            (Synchroniser (scenario (Some (block_numbered 0)) (block_numbered 2)))
              = Some (Inr (), st') \<and>
          map number (delivered (ledger st')) = [1, 2])"
proof -
  let ?e = "scenario None (block_numbered 2)"
  let ?f = "scenario (Some (block_numbered 0)) (block_numbered 2)"
  obtain st' where s: "sync ?e To_undefined (Some 2) None True (Synchroniser ?e) = Some (Inr (), st')"
    using scenario_sync [of "block_numbered 2" "Some 2" None To_undefined None True "Synchroniser ?e"]
    by (auto simp: block_numbered_def chunkLen_or_default_def)
  obtain st'' where t: "sync ?e (To_num 1) (Some 2) None True (Synchroniser ?e) = Some (Inr (), st'')"
    using scenario_sync [of "block_numbered 2" "Some 2" None "To_num 1" None True "Synchroniser ?e"]
    by (auto simp: block_numbered_def chunkLen_or_default_def)
  obtain st''' where u: "sync ?f (To_num 7) (Some 2) None True (Synchroniser ?f) = Some (Inr (), st''')"
    using scenario_sync [of "block_numbered 2" "Some 2" "Some (block_numbered 0)" "To_num 7" None True
        "Synchroniser ?f"]
    by (auto simp: block_numbered_def chunkLen_or_default_def)
  have c: "blockchain_current ?e = Inr (block_numbered 2)" by simp
  have d: "blockchain_current ?f = Inr (block_numbered 2)" by simp
  from sync_delivers_missing_blocks [OF s scenario_honest c]
  have a: "map number (delivered (ledger st')) = [0, 1, 2]"
    by (auto simp: Synchroniser_def local_height_def block_numbered_def upto_rec1)
  from sync_delivers_missing_blocks [OF t scenario_honest c]
  have b: "map number (delivered (ledger st'')) = [0, 1]"
    by (auto simp: Synchroniser_def local_height_def block_numbered_def upto_rec1)
  from sync_delivers_missing_blocks [OF u scenario_honest d]
  have b': "map number (delivered (ledger st''')) = [1, 2]"
    by (auto simp: Synchroniser_def local_height_def block_numbered_def upto_rec1)
  show ?thesis using s a t b u b' by (intro conjI exI [of _ st'] exI [of _ st''] exI [of _ st'''])
qed

theorem to_zero_counterexample:
  "map_option (map number \<circ> delivered \<circ> ledger \<circ> snd)
     (sync (scenario None (block_numbered 2)) (To_num 0) (Some 2) None True
        (Synchroniser (scenario None (block_numbered 2)))) = Some [0, 1, 2] \<and>
   map_option fst
     (sync (scenario None (block_numbered 2)) (To_num 0) (Some 2) None True
        (Synchroniser (scenario None (block_numbered 2)))) = Some (Inr ()) \<and>
   [local_height (scenario None (block_numbered 2)) + 1..
      spec_target (number (block_numbered 2)) (To_num 0)] = [0] \<and>
   local_height (scenario None (block_numbered 2))
     < spec_target (number (block_numbered 2)) (To_num 0)"
proof -
  let ?e = "scenario None (block_numbered 2)"
  obtain st' where s: "sync ?e (To_num 0) (Some 2) None True (Synchroniser ?e) = Some (Inr (), st')"
    using scenario_sync [of "block_numbered 2" "Some 2" None "To_num 0" None True "Synchroniser ?e"]
    by (auto simp: block_numbered_def chunkLen_or_default_def)
  have c: "blockchain_current ?e = Inr (block_numbered 2)" by simp
  from sync_delivered_numbers [OF s scenario_honest c]
  have a: "map number (delivered (ledger st')) = [0, 1, 2]"
    by (auto simp: Synchroniser_def local_height_def remote_target_def block_numbered_def upto_rec1)
  have b: "[local_height ?e + 1..spec_target (number (block_numbered 2)) (To_num 0)] = [0]"
    "local_height ?e < spec_target (number (block_numbered 2)) (To_num 0)"
    by (simp_all add: local_height_def spec_target_def block_numbered_def upto_rec1)
  show ?thesis using s a b by simp
qed

text \<open>
  C2. \<^verbatim>\<open>applyGivenBlock\<close> submits the block with every transaction rebuilt: its raw form is
  the header line \<^verbatim>\<open>TX:version:signatories:inputs:outputs:comment flag:locktime\<close> followed
  by the signatories, the inputs, the outputs, the comment when it is a non-empty string,
  and the signatures, each group joined by newlines and ended by a newline. When none of
  the four groups is empty this is the form of the specification, each element on a line
  of its own; an empty group leaves an empty line. The transaction gets the configured
  document version and currency, its signatories as issuers, and as hash the upper case of
  \<^verbatim>\<open>hashf\<close> applied to what \<^verbatim>\<open>rawer.getTransaction\<close> returns for the stamped transaction
  (the raw form, if that is what \<^verbatim>\<open>rawer.getTransaction\<close> returns).
\<close>

theorem applyGivenBlock_rawifies:
  "\<exists>b'. ledger (snd (applyGivenBlock e cautious remoteNumber b st))
            = ledger st @ [SubmitBlock b' cautious (FORK_ALLOWED e)] \<and>
          number b' = number b \<and>
          transactions b' = map (rawify e) (transactions b) \<and>
          (\<forall>t \<in> set (transactions b).
             raw (rawify e t) =
               Some (join '':'' [''TX'', show_int (DOCUMENTS_VERSION e),
                                 show_nat (length (signatories t)), show_nat (length (inputs t)),
                                 show_nat (length (outputs t)),
                                 (if has_comment t then ''1'' else ''0''),
                                 show_int (case locktime t of None \<Rightarrow> 0 | Some n \<Rightarrow> n)]
                       @ ''\<newline>''
                     @ join ''\<newline>'' (signatories t) @ ''\<newline>''
                     @ join ''\<newline>'' (inputs t) @ ''\<newline>''
                     @ join ''\<newline>'' (outputs t) @ ''\<newline>''
                     @ comment_line t
                     @ join ''\<newline>'' (signatures t) @ ''\<newline>'') \<and>
             (signatories t \<noteq> [] \<and> inputs t \<noteq> [] \<and> outputs t \<noteq> [] \<and> signatures t \<noteq> [] \<longrightarrow>
                raw (rawify e t) = Some (spec_canonical_tx (DOCUMENTS_VERSION e) t)) \<and>
             tx_version (rawify e t) = Some (DOCUMENTS_VERSION e) \<and>
             tx_currency (rawify e t) = Some (conf_currency e) \<and>
             issuers (rawify e t) = Some (signatories t) \<and>
             hash (rawify e t) =
               Some (toUpperCase (hashf e (rawer_getTransaction e ((rawify e t)\<lparr>hash := hash t\<rparr>)))) \<and>
             (rawer_getTransaction e ((rawify e t)\<lparr>hash := hash t\<rparr>) = tx_raw e t \<longrightarrow>
                hash (rawify e t) = Some (toUpperCase (hashf e (the (raw (rawify e t)))))))"
proof -
  let ?b' = "b\<lparr>transactions := map (rawify e) (transactions b)\<rparr>"
  have "ledger (snd (applyGivenBlock e cautious remoteNumber b st))
            = ledger st @ [SubmitBlock ?b' cautious (FORK_ALLOWED e)]"
    by simp
  moreover have "number ?b' = number b" "transactions ?b' = map (rawify e) (transactions b)"
    by simp_all
  moreover have "raw (rawify e t) = Some (spec_canonical_tx (DOCUMENTS_VERSION e) t)"
    if "signatories t \<noteq> []" "inputs t \<noteq> []" "outputs t \<noteq> []" "signatures t \<noteq> []" for t
    using tx_raw_spec [OF that] by (simp add: rawify_fields)
  ultimately show ?thesis
    by (intro exI [of _ ?b']) (simp add: rawify_fields tx_raw_def)
qed

theorem applyGivenBlock_rawifies_witness:
  "raw (rawify (scenario None (block_numbered 2)) example_tx)
     = Some ''TX:2:1:1:1:1:0\<newline>HgTT\<newline>0:T:1:ABCD:10\<newline>BYfW:10\<newline>hello\<newline>SIG1\<newline>'' \<and>
   raw (rawify (scenario None (block_numbered 2)) example_tx)
     = Some (spec_canonical_tx 2 example_tx) \<and>
   hash (rawify (scenario None (block_numbered 2)) example_tx) = Some ''0A1B'' \<and>
   issuers (rawify (scenario None (block_numbered 2)) example_tx) = Some [''HgTT'']"
  using applyGivenBlock_rawifies [of "scenario None (block_numbered 2)" True 2 example_block
      "Synchroniser (scenario None (block_numbered 2))"]
  by (simp add: example_block_def example_tx_def has_comment_def show_int_def show_nat.simps
      toUpperCase_0a1b rawify_fields tx_raw_def spec_canonical_tx_def each_on_own_line_def
      comment_line_def)

theorem empty_group_counterexample:
  "raw (rawify (scenario None (block_numbered 2)) (example_tx\<lparr>inputs := []\<rparr>))
     = Some ''TX:2:1:0:1:1:0\<newline>HgTT\<newline>\<newline>BYfW:10\<newline>hello\<newline>SIG1\<newline>'' \<and>
   spec_canonical_tx 2 (example_tx\<lparr>inputs := []\<rparr>)
     = ''TX:2:1:0:1:1:0\<newline>HgTT\<newline>BYfW:10\<newline>hello\<newline>SIG1\<newline>'' \<and>
   raw (rawify (scenario None (block_numbered 2)) (example_tx\<lparr>inputs := []\<rparr>))
     \<noteq> Some (spec_canonical_tx (DOCUMENTS_VERSION (scenario None (block_numbered 2)))
               (example_tx\<lparr>inputs := []\<rparr>))"
  by (simp add: rawify_fields tx_raw_def spec_canonical_tx_def each_on_own_line_def example_tx_def
      has_comment_def comment_line_def show_int_def show_nat.simps)

text \<open>
  C3, at a failing input. A fresh synchroniser with local current block 0 syncs with a
  remote node at block 2 that returns the requested blocks; the ledger accepts them. The
  mode is cautious by default. The events pushed are download 50 and 100, then applied 50,
  100 and 200: the applied percentage exceeds 100.
\<close>

theorem cautious_sync_pushes_applied_200:
  "map_option (\<lambda>(r, st). (r, pushed st))
     (sync (scenario (Some (block_numbered 0)) (block_numbered 2)) To_undefined None None True
        (Synchroniser (scenario (Some (block_numbered 0)) (block_numbered 2)))) =
   Some (Inr (),
         [Download (Fin 50), Download (Fin 100), Applied (Fin 50), Applied (Fin 100),
          Applied (Fin 200), Sync_true])"
  using cautious_sync_run by (auto simp: map_option_case split: option.splits)

text \<open>
  C4. For every chunk width of at least one the planner returns the chunk list
  \<open>[L + 1, min (L + C, R)], [L + C + 1, min (L + 2 C, R)], \<dots>\<close>; the chunks, read in
  order, cover exactly the block numbers \<open>L + 1, \<dots>, R\<close> once each (no gap, no overlap),
  each chunk's first bound is at most its last, and the list is empty when \<open>R \<le> L\<close>.
\<close>

theorem planner_tiles:
  "1 \<le> C \<Longrightarrow>
     plan_chunks L R C = Some (spec_chunks L R C) \<and>
     covered (spec_chunks L R C) = [L + 1..R] \<and>
     (\<forall>(a, b) \<in> set (spec_chunks L R C). a \<le> b) \<and>
     (R \<le> L \<longrightarrow> plan_chunks L R C = Some [])"
proof -
  assume C: "1 \<le> C"
  have plan: "plan_chunks L R C = Some (chunks_from (L + 1) R C)"
    using plan_chunks_total [OF C] .
  have spec: "chunks_from (L + 1) R C = spec_chunks L R C"
    using chunks_from_spec [OF C, of "L + 1" R] by simp
  have cov: "covered (spec_chunks L R C) = [L + 1..R]"
    using covered_chunks_from [OF C, of "L + 1" R] spec by simp
  have bnd: "\<forall>(a, b) \<in> set (spec_chunks L R C). a \<le> b"
    using spec_chunks_bounds [OF C] by blast
  have emp: "R \<le> L \<longrightarrow> plan_chunks L R C = Some []"
    using plan by (simp add: chunks_from_empty)
  show ?thesis using plan spec cov bnd emp by simp
qed

theorem planner_tiles_witness:
  "plan_chunks (- 1) 1200 500 = Some [(0, 499), (500, 999), (1000, 1200)] \<and>
   covered [(0, 499), (500, 999), (1000, 1200)] = [0..1200] \<and>
   plan_chunks 7 7 500 = Some []"
  using planner_tiles [of 500 "- 1" 1200] planner_tiles [of 500 7 7]
  by (simp add: spec_chunks_def chunk_count_def upt_rec)




text \<open>
  C6, at a failing input. In the same sync one chunk \<open>[1, 2]\<close> is downloaded and completed,
  and two timestamps are appended to the window, one after each block (the window starts
  as \<open>[0]\<close> and ends as \<open>[0, 2000, 5000]\<close>); the speed is then
  \<open>500 * (3 - 1) / 5 = 200\<close> blocks per second, a chunk width counted for each of the two
  blocks applied in five seconds.
\<close>

theorem cautious_sync_appends_timestamp_per_block:
  "map_option (\<lambda>(r, st). (r, rpc st, map number (delivered (ledger st)), times_list st, speed st))
     (sync (scenario (Some (block_numbered 0)) (block_numbered 2)) To_undefined None None True
        (Synchroniser (scenario (Some (block_numbered 0)) (block_numbered 2)))) =
   Some (Inr (), [Vucoin, Blockchain_current, Blockchain_blocks 2 1], [1, 2],
         [0, 2000, 5000], 200)"
  using cautious_sync_run by (auto simp: map_option_case split: option.splits)

text \<open>
  C7. When the connection and the reading of the local current block succeed and the
  remote \<^verbatim>\<open>current()\<close> reports a version below 2, the sync fails with an \<^verbatim>\<open>Error\<close> whose
  message contains "UCP version is" and the version; the only requests made to the remote
  node are the connection and \<^verbatim>\<open>current()\<close> (no chunk is downloaded), no call is made to
  the ledger, and the one event pushed is \<^verbatim>\<open>{sync: false, msg}\<close> with that error, which is
  also what the caller gets.
\<close>

theorem old_remote_rejected:
  assumes "vucoin e = None" "getCurrentBlockOrNull e = Inr lCurrent"
    "blockchain_current e = Inr rCurrent" "version rCurrent < 2"
  shows "\<exists>msg st'. sync e to chunkLen askedCautious nopeers st = Some (Inl (Err msg), st') \<and>
           sublist (''UCP version is '' @ show_int (version rCurrent)) msg \<and>
           rpc st' = rpc st @ [Vucoin, Blockchain_current] \<and>
           ledger st' = ledger st \<and>
           pushed st' = pushed st @ [Sync_false (Err msg)]"
proof -
  let ?msg = "''Could not sync with remote host. UCP version is ''
                 @ show_int (version rCurrent) @ '' (Must be >= 2)''"
  have sub: "sublist (''UCP version is '' @ show_int (version rCurrent)) ?msg"
    unfolding sublist_def
    by (rule exI [of _ "''Could not sync with remote host. ''"], rule exI [of _ "'' (Must be >= 2)''"]) simp
  show ?thesis
    apply (rule exI [of _ ?msg])
    using sub connect_old_version [OF assms, of to askedCautious "st\<lparr>logInterval := Unset\<rparr>"]
    by (simp add: sync_def on_error_def Let_def)
qed

theorem old_remote_rejected_witness:
  "\<exists>msg st'. sync (scenario None \<lparr>number = 5, version = 1, transactions = []\<rparr>) To_undefined None
       None False (Synchroniser (scenario None \<lparr>number = 5, version = 1, transactions = []\<rparr>))
       = Some (Inl (Err msg), st') \<and>
     sublist ''UCP version is 1'' msg \<and>
     rpc st' = [Vucoin, Blockchain_current] \<and> ledger st' = [] \<and>
     pushed st' = [Sync_false (Err msg)]"
  using old_remote_rejected [of "scenario None \<lparr>number = 5, version = 1, transactions = []\<rparr>" None
      "\<lparr>number = 5, version = 1, transactions = []\<rparr>" To_undefined None None False
      "Synchroniser (scenario None \<lparr>number = 5, version = 1, transactions = []\<rparr>)"]
  by (simp add: show_int_def show_nat.simps Synchroniser_def)

text \<open>
  C8. For a remote peering entry that passes the guard on its raw form and signature:
  \<^verbatim>\<open>syncPeer\<close> submits it whether or not its signature checks; it fulfils when the peer
  service accepts or rejects with an error equal (\<^verbatim>\<open>==\<close>) to \<^verbatim>\<open>ALREADY_RECORDED\<close> or to
  \<^verbatim>\<open>UNKNOWN_REFERENCE_BLOCK\<close>, and the peers phase goes on with the reconciliation; it
  rejects with any other error of the peer service, and a sync whose peer service always
  answers the submission of that entry with such an error does not succeed. A signature
  that does not check adds the status "Wrong signature for peer #" and changes nothing else.
\<close>

theorem syncPeer_submission_errors:
  assumes "peering_get e = Inr json" "Peer_getRaw e json \<noteq> []"
    "dos2unix e (Peer_signature e json) \<noteq> []"
  shows "fst (syncPeer e st) =
           (case submitP e (peering st @ [SubmitP json None None]) of
              None \<Rightarrow> Inr ()
            | Some err \<Rightarrow>
                if loose_neq err (ALREADY_RECORDED e) \<and> loose_neq err (UNKNOWN_REFERENCE_BLOCK e)
                then Inl err else Inr ()) \<and>
         peering (snd (syncPeer e st)) = peering st @ [SubmitP json None None] \<and>
         statuses (snd (syncPeer e st)) =
           statuses st @ (if checkPeerSignature e json then []
                          else [''Wrong signature for peer #'' @ pubkey json]) \<and>
         (fst (syncPeer e (writeStatus ''Peers...'' st)) = Inr () \<longrightarrow>
            peers_phase e to st = reconcile e to (snd (syncPeer e (writeStatus ''Peers...'' st)))) \<and>
         ((\<forall>calls. \<exists>err. submitP e (calls @ [SubmitP json None None]) = Some err \<and>
              loose_neq err (ALREADY_RECORDED e) \<and> loose_neq err (UNKNOWN_REFERENCE_BLOCK e)) \<longrightarrow>
          (\<forall>r st'. sync e to chunkLen askedCautious False st = Some (r, st') \<longrightarrow> isl r))"
proof (intro conjI impI allI)
  show "fst (syncPeer e st) =
           (case submitP e (peering st @ [SubmitP json None None]) of
              None \<Rightarrow> Inr ()
            | Some err \<Rightarrow>
                if loose_neq err (ALREADY_RECORDED e) \<and> loose_neq err (UNKNOWN_REFERENCE_BLOCK e)
                then Inl err else Inr ())"
    using syncPeer_outcome(1) [OF assms] .
  show "peering (snd (syncPeer e st)) = peering st @ [SubmitP json None None]"
    using syncPeer_outcome(2) [OF assms] .
  show "statuses (snd (syncPeer e st)) =
           statuses st @ (if checkPeerSignature e json then []
                          else [''Wrong signature for peer #'' @ pubkey json])"
    using syncPeer_outcome(3) [OF assms] .
next
  assume "fst (syncPeer e (writeStatus ''Peers...'' st)) = Inr ()"
  then show "peers_phase e to st = reconcile e to (snd (syncPeer e (writeStatus ''Peers...'' st)))"
    by (simp add: peers_phase_def split_beta)
next
  fix r st'
  assume rej: "\<forall>calls. \<exists>err. submitP e (calls @ [SubmitP json None None]) = Some err \<and>
              loose_neq err (ALREADY_RECORDED e) \<and> loose_neq err (UNKNOWN_REFERENCE_BLOCK e)"
    and s: "sync e to chunkLen askedCautious False st = Some (r, st')"
  from s show "isl r"
  proof (cases rule: sync_cases)
    case (early err st1)
    then show ?thesis by (simp add: on_error_def Let_def)
  next
    case (late L R c st1 chunks err st2)
    then show ?thesis by (simp add: on_error_def Let_def)
  next
    case (success L R c st1 chunks)
    from blocks_and_peers_Inr_peers [OF success(3)] obtain st2 where
      ok: "fst (syncPeer e (writeStatus ''Peers...'' st2)) = Inr ()" by blast
    from rej obtain err where
      "submitP e (peering (writeStatus ''Peers...'' st2) @ [SubmitP json None None]) = Some err"
      "loose_neq err (ALREADY_RECORDED e)" "loose_neq err (UNKNOWN_REFERENCE_BLOCK e)" by blast
    with syncPeer_outcome(1) [OF assms, of "writeStatus ''Peers...'' st2"] ok
    show ?thesis by simp
  qed
qed

theorem syncPeer_submission_errors_witness:
  "fst (syncPeer (rejecting_peers (Str ''Peer document is older than currently recorded'')
                    (scenario None (block_numbered 2)))
          (Synchroniser (scenario None (block_numbered 2)))) = Inr () \<and>
   fst (syncPeer (rejecting_peers (Err ''Signature does not match'')
                    (scenario None (block_numbered 2)))
          (Synchroniser (scenario None (block_numbered 2)))) = Inl (Err ''Signature does not match'') \<and>
   statuses (snd (syncPeer (rejecting_peers (Str ''Peer document is older than currently recorded'')
                    (scenario None (block_numbered 2)))
          (Synchroniser (scenario None (block_numbered 2))))) = [''Wrong signature for peer #REMOTE''] \<and>
   (\<exists>r st'. sync (rejecting_peers (Err ''Signature does not match'') (scenario None (block_numbered 2)))
              To_undefined None None False (Synchroniser (scenario None (block_numbered 2)))
            = Some (r, st') \<and> isl r)"
proof -
  let ?e = "scenario None (block_numbered 2)"
  let ?st = "Synchroniser ?e"
  let ?a = "rejecting_peers (Str ''Peer document is older than currently recorded'') ?e"
  let ?b = "rejecting_peers (Err ''Signature does not match'') ?e"
  have ha: "peering_get ?a = Inr (peer_of ''REMOTE'')" "Peer_getRaw ?a (peer_of ''REMOTE'') \<noteq> []"
    "dos2unix ?a (Peer_signature ?a (peer_of ''REMOTE'')) \<noteq> []"
    by (simp_all add: peer_of_def)
  have hb: "peering_get ?b = Inr (peer_of ''REMOTE'')" "Peer_getRaw ?b (peer_of ''REMOTE'') \<noteq> []"
    "dos2unix ?b (Peer_signature ?b (peer_of ''REMOTE'')) \<noteq> []"
    by (simp_all add: peer_of_def)
  note A = syncPeer_submission_errors [OF ha, of ?st To_undefined None None]
  note B = syncPeer_submission_errors [OF hb, of ?st To_undefined None None]
  have 1: "fst (syncPeer ?a ?st) = Inr ()"
    using A [THEN conjunct1] by (simp add: loose_neq_def)
  have 2: "fst (syncPeer ?b ?st) = Inl (Err ''Signature does not match'')"
    using B [THEN conjunct1] by (simp add: loose_neq_def)
  have 3: "statuses (snd (syncPeer ?a ?st)) = [''Wrong signature for peer #REMOTE'']"
    using A [THEN conjunct2, THEN conjunct2, THEN conjunct1]
    by (simp add: Synchroniser_def peer_of_def)
  have rej: "\<forall>calls. \<exists>err. submitP ?b (calls @ [SubmitP (peer_of ''REMOTE'') None None]) = Some err \<and>
              loose_neq err (ALREADY_RECORDED ?b) \<and> loose_neq err (UNKNOWN_REFERENCE_BLOCK ?b)"
    by (simp add: loose_neq_def)
  obtain r st' where s: "sync ?b To_undefined None None False ?st = Some (r, st')"
    using sync_returns [of None ?b To_undefined None False ?st]
    by (auto simp: chunkLen_or_default_def CONST_BLOCKS_CHUNK_def)
  have "isl r"
    using B [THEN conjunct2, THEN conjunct2, THEN conjunct2, THEN conjunct2] rej s by blast
  with s have 4: "\<exists>r st'. sync ?b To_undefined None None False ?st = Some (r, st') \<and> isl r"
    by blast
  show ?thesis using 1 2 3 4 by (intro conjI)
qed



text \<open>
  C10. The timer: a sync that succeeds ends with its interval running (it is never
  cleared); a sync that fails after the timer was started ends with the interval cleared;
  a sync that fails before (connection, local current block, \<^verbatim>\<open>current()\<close>, version check)
  has started no timer and clears none (\<^verbatim>\<open>if (logInterval)\<close> guards \<^verbatim>\<open>clearInterval\<close>). So
  a started timer is cleared if and only if the sync fails.

  That every failing sync clears the timer does not hold: the timer is started after the
  version check, not at the beginning of the sync, and against a remote node of version
  1 the sync fails with no timer started and no \<^verbatim>\<open>clearInterval\<close>.
\<close>

theorem timer_cleared_iff_failed:
  assumes "sync e to chunkLen askedCautious nopeers st = Some (r, st')"
  shows "logInterval st' =
           (if isl r
            then (if isl (fst (connect e to askedCautious (st\<lparr>logInterval := Unset\<rparr>)))
                  then Unset else Cleared)
            else Running)"
  using assms
proof (cases rule: sync_cases)
  case (early err st1)
  then show ?thesis
    using connect_logInterval [OF early(1)] on_error_logInterval [of err st1 r st'] by simp
next
  case (late L R c st1 chunks err st2)
  then show ?thesis
    using connect_logInterval [OF late(1)] blocks_and_peers_logInterval [OF late(3)]
      on_error_logInterval [of err st2 r st'] by simp
next
  case (success L R c st1 chunks)
  then show ?thesis
    using connect_logInterval [OF success(1)] blocks_and_peers_logInterval [OF success(3)] by simp
qed

theorem timer_cleared_iff_failed_witness:
  "(\<exists>st'. sync (scenario None (block_numbered 2)) To_undefined None None False
            (Synchroniser (scenario None (block_numbered 2))) = Some (Inr (), st') \<and>
          logInterval st' = Running) \<and>
   (\<exists>st'. sync (failing_download (scenario None (block_numbered 2))) To_undefined None None False
            (Synchroniser (scenario None (block_numbered 2))) = Some (Inl (Str ''ETIMEDOUT''), st') \<and>
          logInterval st' = Cleared)"
proof -
  let ?e = "scenario None (block_numbered 2)"
  obtain st' where s: "sync ?e To_undefined None None False (Synchroniser ?e) = Some (Inr (), st')"
    using scenario_sync [of "block_numbered 2" None None To_undefined None False "Synchroniser ?e"]
    by (auto simp: block_numbered_def chunkLen_or_default_def CONST_BLOCKS_CHUNK_def)
  have a: "logInterval st' = Running"
    using timer_cleared_iff_failed [OF s] by simp
  obtain st1 st'' where c: "connect (failing_download ?e) To_undefined None
        (Synchroniser ?e\<lparr>logInterval := Unset\<rparr>) = (Inr (- 1, 2, False), st1)"
    and f: "sync (failing_download ?e) To_undefined None None False (Synchroniser ?e)
        = Some (Inl (Str ''ETIMEDOUT''), st'')"
    using failing_download_sync [of ?e] by blast
  have b: "logInterval st'' = Cleared"
    using timer_cleared_iff_failed [OF f] c by simp
  show ?thesis using s a f b by (intro conjI exI [of _ st'] exI [of _ st''])
qed

theorem early_failure_leaves_timer_unset:
  "map_option fst
     (sync (scenario None \<lparr>number = 5, version = 1, transactions = []\<rparr>) To_undefined None None False
        (Synchroniser (scenario None \<lparr>number = 5, version = 1, transactions = []\<rparr>)))
     = Some (Inl (Err ''Could not sync with remote host. UCP version is 1 (Must be >= 2)'')) \<and>
   map_option (logInterval \<circ> snd)
     (sync (scenario None \<lparr>number = 5, version = 1, transactions = []\<rparr>) To_undefined None None False
        (Synchroniser (scenario None \<lparr>number = 5, version = 1, transactions = []\<rparr>)))
     = Some Unset"
  using connect_old_version [of "scenario None \<lparr>number = 5, version = 1, transactions = []\<rparr>" None
      "\<lparr>number = 5, version = 1, transactions = []\<rparr>" To_undefined None
      "Synchroniser (scenario None \<lparr>number = 5, version = 1, transactions = []\<rparr>)\<lparr>logInterval := Unset\<rparr>"]
  by (simp add: sync_def on_error_def Let_def show_int_def show_nat.simps Synchroniser_def)

end
